theory Spec2Isabelle
  imports Main "HOL-Library.Word" "HOL-Library.Signed_Division"
begin

unbundle bit_operations_syntax

section \<open>Data model\<close>

type_synonym u8 = "8 word"
type_synonym u16 = "16 word"
type_synonym u32 = "32 word"
type_synonym u64 = "64 word"

text \<open>
  Errors as values. \<open>Panic\<close> stands for every Go run-time panic (index out of range,
  integer division by zero, an explicit \<open>panic(...)\<close>); \<open>ExitErr\<close> is the sentinel
  \<open>exitErr\<close>; the other constructors are the \<open>fmt.Errorf\<close> results of \<open>ecall\<close>,
  \<open>Decode\<close> and \<open>rvcDecode\<close>.
\<close>

datatype error =
    Panic
  | ExitErr
  | UnrecognizedFd
  | UnrecognizedEcall
  | BadLength
  | UnsupportedSize
  | NotEnoughBytes
  | BadUType
  | UnrecognizedFormat
  | InstrSizeNotSupported
  | NoTableEntry
  | IllegalInstruction

text \<open>Modelled from the spec: \<open>IsExit\<close> is declared outside the given sources; the
  spec's step loop treats the error "exit" as terminal, so it recognises the sentinel.\<close>

definition IsExit :: "error \<Rightarrow> bool" where
  "IsExit e = (e = ExitErr)"

record flags =
  updatedPC :: bool
  updatedRDINSTRET :: bool

text \<open>The handler an instruction points to (the Go field \<open>fn\<close> holds a function value).\<close>

datatype (plugins only: code) op =
    F_lui | F_auipc | F_jal | F_jalr
  | F_beq | F_bne | F_blt | F_bge | F_bltu | F_bgeu
  | F_lb | F_lh | F_lw | F_lbu | F_lhu | F_sb | F_sh | F_sw
  | F_addi | F_slti | F_sltiu | F_xori | F_ori | F_andi
  | F_add | F_sub | F_sll | F_slt | F_sltu | F_xor | F_srl | F_sra | F_or | F_and
  | F_fence | F_fence_i | F_ecallOrBreak | F_ecall | F_ebreak
  | F_csrrw | F_csrrs | F_csrrc | F_csrrwi | F_csrrsi | F_csrrci
  | F_lwu | F_ld | F_sd | F_slli | F_shiftRight | F_srli | F_srai
  | F_addiw | F_slliw | F_srliw | F_sraiw
  | F_addw | F_subw | F_sllw | F_srlw | F_sraw
  | F_mul | F_mulh | F_mulhsu | F_mulhu | F_div | F_divu | F_rem | F_remu
  | F_mulw | F_divw | F_divuw | F_remw | F_remuw
  | F_rvcJAL | F_rvcJALR

record Instruction =
  fn :: op
  rs1 :: u64
  rs2 :: u64
  rd :: u64
  imm :: u64
  raw :: u64

text \<open>
  The machine. \<open>Reg\<close> (\<open>[32]uint64\<close>) and \<open>CSR\<close> (\<open>[1 << 11]uint64\<close>) are fixed-size
  arrays: they are functions on the index, and every access checks the bound of the
  array, as Go does. \<open>Mem\<close> is a slice: a list with its own length.
\<close>

record VM =
  Reg :: "nat \<Rightarrow> u64"
  CSR :: "nat \<Rightarrow> u64"
  PC :: u64
  Steps :: u64
  Mem :: "u8 list"
  Debug :: u32
  LastInstr :: "Instruction option"
  LastPC :: u64

record Prog =
  Argv :: "u8 list list option"
  Env :: "u8 list list option"
  Start :: u64
  MemSize :: u64

definition SP :: u64 where "SP = 2"
definition RA :: u64 where "RA = 1"
definition Zero :: u64 where "Zero = 0"

definition RDCYCLE :: u64 where "RDCYCLE = 1"
definition RDTIME :: u64 where "RDTIME = 2"
definition RDINSTRET :: u64 where "RDINSTRET = 3"

section \<open>Sign extension (sign.go)\<close>

text \<open>The table built by \<open>init\<close>: entry \<open>i\<close> is \<open>(1 << i, MaxUint64 << i)\<close>.
  It has 32 entries; every call of \<open>signExtend\<close> in the sources passes a constant
  below 32.\<close>

definition signBits :: "nat \<Rightarrow> u64 \<times> u64" where
  "signBits i = (push_bit i 1, push_bit i 0xFFFFFFFFFFFFFFFF)"

definition signExtend :: "u64 \<Rightarrow> nat \<Rightarrow> u64" where
  "signExtend v n =
     (if v AND fst (signBits n) \<noteq> 0 then v OR snd (signBits n) else v)"

section \<open>Machine state access\<close>

definition bind_err :: "error + 'a \<Rightarrow> ('a \<Rightarrow> error + 'b) \<Rightarrow> error + 'b" where
  "bind_err m f = (case m of Inl e \<Rightarrow> Inl e | Inr x \<Rightarrow> f x)"

definition ret :: "VM \<Rightarrow> error + (VM \<times> flags)" where
  "ret vm = Inr (vm, \<lparr>updatedPC = False, updatedRDINSTRET = False\<rparr>)"

definition retPC :: "VM \<Rightarrow> error + (VM \<times> flags)" where
  "retPC vm = Inr (vm, \<lparr>updatedPC = True, updatedRDINSTRET = False\<rparr>)"

text \<open>\<open>vm.Reg[r]\<close> as an expression.\<close>

definition getReg :: "VM \<Rightarrow> u64 \<Rightarrow> error + u64" where
  "getReg vm r = (if unat r < 32 then Inr (Reg vm (unat r)) else Inl Panic)"

text \<open>\<open>store\<close>: the zero register is hard-wired; writing to it has no effect.\<close>

definition store :: "VM \<Rightarrow> u64 \<Rightarrow> u64 \<Rightarrow> error + VM" where
  "store vm r val =
     (if r = 0 then Inr vm
      else if unat r < 32 then Inr (vm\<lparr>Reg := (Reg vm)(unat r := val)\<rparr>)
      else Inl Panic)"

text \<open>\<open>uint64(vm.Mem[a])\<close> and \<open>vm.Mem[a] = b\<close>.\<close>

definition getMem :: "VM \<Rightarrow> u64 \<Rightarrow> error + u64" where
  "getMem vm a =
     (if unat a < length (Mem vm) then Inr (ucast (Mem vm ! unat a)) else Inl Panic)"

definition setMem :: "VM \<Rightarrow> u64 \<Rightarrow> u8 \<Rightarrow> error + VM" where
  "setMem vm a b =
     (if unat a < length (Mem vm) then Inr (vm\<lparr>Mem := (Mem vm)[unat a := b]\<rparr>)
      else Inl Panic)"

text \<open>\<open>vm.CSR[c]\<close> and \<open>vm.CSR[c] = v\<close>.\<close>

definition getCSR :: "VM \<Rightarrow> u64 \<Rightarrow> error + u64" where
  "getCSR vm c = (if unat c < 2048 then Inr (CSR vm (unat c)) else Inl Panic)"

definition setCSR :: "VM \<Rightarrow> u64 \<Rightarrow> u64 \<Rightarrow> error + VM" where
  "setCSR vm c v =
     (if unat c < 2048 then Inr (vm\<lparr>CSR := (CSR vm)(unat c := v)\<rparr>) else Inl Panic)"

text \<open>\<open>byte(v)\<close>, \<open>int32(v)\<close>/\<open>uint32(v)\<close> truncate; \<open>uint64\<close> of an \<open>int32\<close> sign-extends,
  of a \<open>uint32\<close> zero-extends.\<close>

definition byte :: "u64 \<Rightarrow> u8" where "byte v = ucast v"
definition to32 :: "u64 \<Rightarrow> u32" where "to32 v = ucast v"
definition int32_to_u64 :: "u32 \<Rightarrow> u64" where "int32_to_u64 w = scast w"
definition uint32_to_u64 :: "u32 \<Rightarrow> u64" where "uint32_to_u64 w = ucast w"

text \<open>Go's signed \<open>/\<close> and \<open>%\<close> truncate towards zero and wrap on overflow; the caller
  has excluded a zero divisor (which panics).\<close>

definition quot64 :: "u64 \<Rightarrow> u64 \<Rightarrow> u64" where
  "quot64 a b = word_of_int (sint a sdiv sint b)"
definition rem64 :: "u64 \<Rightarrow> u64 \<Rightarrow> u64" where
  "rem64 a b = word_of_int (sint a smod sint b)"
definition quot32 :: "u32 \<Rightarrow> u32 \<Rightarrow> u32" where
  "quot32 a b = word_of_int (sint a sdiv sint b)"
definition rem32 :: "u32 \<Rightarrow> u32 \<Rightarrow> u32" where
  "rem32 a b = word_of_int (sint a smod sint b)"

section \<open>RV32I base instruction set (rvi.go)\<close>

definition lui :: "VM \<Rightarrow> Instruction \<Rightarrow> error + (VM \<times> flags)" where
  "lui vm i = bind_err (store vm (rd i) (signExtend (imm i) 31)) ret"

definition auipc :: "VM \<Rightarrow> Instruction \<Rightarrow> error + (VM \<times> flags)" where
  "auipc vm i = bind_err (store vm (rd i) (signExtend (imm i + PC vm) 31)) ret"

definition jal :: "VM \<Rightarrow> Instruction \<Rightarrow> error + (VM \<times> flags)" where
  "jal vm i =
     bind_err (store vm (rd i) (PC vm + 4)) (\<lambda>vm.
     retPC (vm\<lparr>PC := signExtend (imm i) 19 + PC vm\<rparr>))"

definition jalr :: "VM \<Rightarrow> Instruction \<Rightarrow> error + (VM \<times> flags)" where
  "jalr vm i =
     bind_err (store vm (rd i) (PC vm + 4)) (\<lambda>vm.
     bind_err (getReg vm (rs1 i)) (\<lambda>a.
     retPC (vm\<lparr>PC := (signExtend (imm i) 12 + a) AND NOT 1\<rparr>)))"

text \<open>The six branches share one shape: compare, then either set the program counter
  or leave it to the step loop.\<close>

definition branch :: "(u64 \<Rightarrow> u64 \<Rightarrow> bool) \<Rightarrow> VM \<Rightarrow> Instruction \<Rightarrow> error + (VM \<times> flags)" where
  "branch cond vm i =
     bind_err (getReg vm (rs1 i)) (\<lambda>a.
     bind_err (getReg vm (rs2 i)) (\<lambda>b.
     if cond a b then retPC (vm\<lparr>PC := PC vm + signExtend (imm i) 12\<rparr>) else ret vm))"

definition beq :: "VM \<Rightarrow> Instruction \<Rightarrow> error + (VM \<times> flags)" where
  "beq = branch (\<lambda>a b. a = b)"
definition bne :: "VM \<Rightarrow> Instruction \<Rightarrow> error + (VM \<times> flags)" where
  "bne = branch (\<lambda>a b. a \<noteq> b)"
definition blt :: "VM \<Rightarrow> Instruction \<Rightarrow> error + (VM \<times> flags)" where
  "blt = branch (\<lambda>a b. a <s b)"
definition bge :: "VM \<Rightarrow> Instruction \<Rightarrow> error + (VM \<times> flags)" where
  "bge = branch (\<lambda>a b. \<not> a <s b)"
definition bltu :: "VM \<Rightarrow> Instruction \<Rightarrow> error + (VM \<times> flags)" where
  "bltu = branch (\<lambda>a b. a < b)"
definition bgeu :: "VM \<Rightarrow> Instruction \<Rightarrow> error + (VM \<times> flags)" where
  "bgeu = branch (\<lambda>a b. a \<ge> b)"

text \<open>The effective address of loads and stores: \<open>vm.Reg[in.rs1] + signExtend(in.imm, 11)\<close>.\<close>

definition addr :: "VM \<Rightarrow> Instruction \<Rightarrow> error + u64" where
  "addr vm i = bind_err (getReg vm (rs1 i)) (\<lambda>b. Inr (b + signExtend (imm i) 11))"

text \<open>Little-endian reads of 2, 4 and 8 bytes, byte by byte as the handlers and
  \<open>VM.Memory\<close> do; each byte access is checked on its own.\<close>

definition read16 :: "VM \<Rightarrow> u64 \<Rightarrow> error + u64" where
  "read16 vm a =
     bind_err (getMem vm a) (\<lambda>v0.
     bind_err (getMem vm (a + 1)) (\<lambda>v1.
     Inr (v0 OR push_bit 8 v1)))"

definition read32 :: "VM \<Rightarrow> u64 \<Rightarrow> error + u64" where
  "read32 vm a =
     bind_err (getMem vm a) (\<lambda>v0.
     bind_err (getMem vm (a + 1)) (\<lambda>v1.
     bind_err (getMem vm (a + 2)) (\<lambda>v2.
     bind_err (getMem vm (a + 3)) (\<lambda>v3.
     Inr (v0 OR push_bit 8 v1 OR push_bit 16 v2 OR push_bit 24 v3)))))"

definition read64 :: "VM \<Rightarrow> u64 \<Rightarrow> error + u64" where
  "read64 vm a =
     bind_err (getMem vm a) (\<lambda>v0.
     bind_err (getMem vm (a + 1)) (\<lambda>v1.
     bind_err (getMem vm (a + 2)) (\<lambda>v2.
     bind_err (getMem vm (a + 3)) (\<lambda>v3.
     bind_err (getMem vm (a + 4)) (\<lambda>v4.
     bind_err (getMem vm (a + 5)) (\<lambda>v5.
     bind_err (getMem vm (a + 6)) (\<lambda>v6.
     bind_err (getMem vm (a + 7)) (\<lambda>v7.
     Inr (v0 OR push_bit 8 v1 OR push_bit 16 v2 OR push_bit 24 v3 OR push_bit 32 v4
          OR push_bit 40 v5 OR push_bit 48 v6 OR push_bit 56 v7)))))))))"

text \<open>Little-endian writes of 2, 4 and 8 bytes: \<open>vm.Mem[a+k] = byte(v >> 8k)\<close>.\<close>

definition write16 :: "VM \<Rightarrow> u64 \<Rightarrow> u64 \<Rightarrow> error + VM" where
  "write16 vm a v =
     bind_err (setMem vm a (byte v)) (\<lambda>vm.
     setMem vm (a + 1) (byte (drop_bit 8 v)))"

definition write32 :: "VM \<Rightarrow> u64 \<Rightarrow> u64 \<Rightarrow> error + VM" where
  "write32 vm a v =
     bind_err (setMem vm a (byte v)) (\<lambda>vm.
     bind_err (setMem vm (a + 1) (byte (drop_bit 8 v))) (\<lambda>vm.
     bind_err (setMem vm (a + 2) (byte (drop_bit 16 v))) (\<lambda>vm.
     setMem vm (a + 3) (byte (drop_bit 24 v)))))"

definition write64 :: "VM \<Rightarrow> u64 \<Rightarrow> u64 \<Rightarrow> error + VM" where
  "write64 vm a v =
     bind_err (setMem vm a (byte v)) (\<lambda>vm.
     bind_err (setMem vm (a + 1) (byte (drop_bit 8 v))) (\<lambda>vm.
     bind_err (setMem vm (a + 2) (byte (drop_bit 16 v))) (\<lambda>vm.
     bind_err (setMem vm (a + 3) (byte (drop_bit 24 v))) (\<lambda>vm.
     bind_err (setMem vm (a + 4) (byte (drop_bit 32 v))) (\<lambda>vm.
     bind_err (setMem vm (a + 5) (byte (drop_bit 40 v))) (\<lambda>vm.
     bind_err (setMem vm (a + 6) (byte (drop_bit 48 v))) (\<lambda>vm.
     setMem vm (a + 7) (byte (drop_bit 56 v)))))))))"

definition lb :: "VM \<Rightarrow> Instruction \<Rightarrow> error + (VM \<times> flags)" where
  "lb vm i =
     bind_err (addr vm i) (\<lambda>a.
     bind_err (getMem vm a) (\<lambda>v.
     bind_err (store vm (rd i) (signExtend v 7)) ret))"

definition lh :: "VM \<Rightarrow> Instruction \<Rightarrow> error + (VM \<times> flags)" where
  "lh vm i =
     bind_err (addr vm i) (\<lambda>a.
     bind_err (read16 vm a) (\<lambda>v.
     bind_err (store vm (rd i) (signExtend v 15)) ret))"

definition lw :: "VM \<Rightarrow> Instruction \<Rightarrow> error + (VM \<times> flags)" where
  "lw vm i =
     bind_err (addr vm i) (\<lambda>a.
     bind_err (read32 vm a) (\<lambda>v.
     bind_err (store vm (rd i) (signExtend v 31)) ret))"

definition lbu :: "VM \<Rightarrow> Instruction \<Rightarrow> error + (VM \<times> flags)" where
  "lbu vm i =
     bind_err (addr vm i) (\<lambda>a.
     bind_err (getMem vm a) (\<lambda>v.
     bind_err (store vm (rd i) v) ret))"

definition lhu :: "VM \<Rightarrow> Instruction \<Rightarrow> error + (VM \<times> flags)" where
  "lhu vm i =
     bind_err (addr vm i) (\<lambda>a.
     bind_err (read16 vm a) (\<lambda>v.
     bind_err (store vm (rd i) v) ret))"

definition sb :: "VM \<Rightarrow> Instruction \<Rightarrow> error + (VM \<times> flags)" where
  "sb vm i =
     bind_err (addr vm i) (\<lambda>a.
     bind_err (getReg vm (rs2 i)) (\<lambda>v.
     bind_err (setMem vm a (byte (v AND 0xff))) ret))"

definition sh :: "VM \<Rightarrow> Instruction \<Rightarrow> error + (VM \<times> flags)" where
  "sh vm i =
     bind_err (addr vm i) (\<lambda>a.
     bind_err (getReg vm (rs2 i)) (\<lambda>v.
     bind_err (write16 vm a v) ret))"

definition sw :: "VM \<Rightarrow> Instruction \<Rightarrow> error + (VM \<times> flags)" where
  "sw vm i =
     bind_err (addr vm i) (\<lambda>a.
     bind_err (getReg vm (rs2 i)) (\<lambda>v.
     bind_err (write32 vm a v) ret))"

definition addi :: "VM \<Rightarrow> Instruction \<Rightarrow> error + (VM \<times> flags)" where
  "addi vm i =
     bind_err (getReg vm (rs1 i)) (\<lambda>a.
     bind_err (store vm (rd i) (a + signExtend (imm i AND 0xfff) 11)) ret)"

definition slti :: "VM \<Rightarrow> Instruction \<Rightarrow> error + (VM \<times> flags)" where
  "slti vm i =
     bind_err (getReg vm (rs1 i)) (\<lambda>a.
     bind_err (store vm (rd i) (if a <s signExtend (imm i) 11 then 1 else 0)) ret)"

definition sltiu :: "VM \<Rightarrow> Instruction \<Rightarrow> error + (VM \<times> flags)" where
  "sltiu vm i =
     bind_err (getReg vm (rs1 i)) (\<lambda>a.
     bind_err (store vm (rd i) (if a < imm i then 1 else 0)) ret)"

definition xori :: "VM \<Rightarrow> Instruction \<Rightarrow> error + (VM \<times> flags)" where
  "xori vm i =
     bind_err (getReg vm (rs1 i)) (\<lambda>a.
     bind_err (store vm (rd i) (a XOR signExtend (imm i) 11)) ret)"

definition ori :: "VM \<Rightarrow> Instruction \<Rightarrow> error + (VM \<times> flags)" where
  "ori vm i =
     bind_err (getReg vm (rs1 i)) (\<lambda>a.
     bind_err (store vm (rd i) (a OR signExtend (imm i) 11)) ret)"

definition andi :: "VM \<Rightarrow> Instruction \<Rightarrow> error + (VM \<times> flags)" where
  "andi vm i =
     bind_err (getReg vm (rs1 i)) (\<lambda>a.
     bind_err (store vm (rd i) (a AND signExtend (imm i) 11)) ret)"

definition add :: "VM \<Rightarrow> Instruction \<Rightarrow> error + (VM \<times> flags)" where
  "add vm i =
     bind_err (getReg vm (rs1 i)) (\<lambda>a.
     bind_err (getReg vm (rs2 i)) (\<lambda>b.
     bind_err (store vm (rd i) (a + b)) ret))"

definition sub :: "VM \<Rightarrow> Instruction \<Rightarrow> error + (VM \<times> flags)" where
  "sub vm i =
     bind_err (getReg vm (rs1 i)) (\<lambda>a.
     bind_err (getReg vm (rs2 i)) (\<lambda>b.
     bind_err (store vm (rd i) (a - b)) ret))"

definition sll :: "VM \<Rightarrow> Instruction \<Rightarrow> error + (VM \<times> flags)" where
  "sll vm i =
     bind_err (getReg vm (rs1 i)) (\<lambda>a.
     bind_err (getReg vm (rs2 i)) (\<lambda>b.
     bind_err (store vm (rd i) (push_bit (unat (b AND 0x3f)) a)) ret))"

definition slt :: "VM \<Rightarrow> Instruction \<Rightarrow> error + (VM \<times> flags)" where
  "slt vm i =
     bind_err (getReg vm (rs1 i)) (\<lambda>a.
     bind_err (getReg vm (rs2 i)) (\<lambda>b.
     bind_err (store vm (rd i) (if a <s b then 1 else 0)) ret))"

definition sltu :: "VM \<Rightarrow> Instruction \<Rightarrow> error + (VM \<times> flags)" where
  "sltu vm i =
     bind_err (getReg vm (rs1 i)) (\<lambda>a.
     bind_err (getReg vm (rs2 i)) (\<lambda>b.
     bind_err (store vm (rd i) (if a < b then 1 else 0)) ret))"

definition xor_op :: "VM \<Rightarrow> Instruction \<Rightarrow> error + (VM \<times> flags)" where
  "xor_op vm i =
     bind_err (getReg vm (rs1 i)) (\<lambda>a.
     bind_err (getReg vm (rs2 i)) (\<lambda>b.
     bind_err (store vm (rd i) (a XOR b)) ret))"

definition srl :: "VM \<Rightarrow> Instruction \<Rightarrow> error + (VM \<times> flags)" where
  "srl vm i =
     bind_err (getReg vm (rs1 i)) (\<lambda>a.
     bind_err (getReg vm (rs2 i)) (\<lambda>b.
     bind_err (store vm (rd i) (drop_bit (unat (b AND 0x3f)) a)) ret))"

definition sra :: "VM \<Rightarrow> Instruction \<Rightarrow> error + (VM \<times> flags)" where
  "sra vm i =
     bind_err (getReg vm (rs1 i)) (\<lambda>a.
     bind_err (getReg vm (rs2 i)) (\<lambda>b.
     bind_err (store vm (rd i) (signed_drop_bit (unat (b AND 0x3f)) a)) ret))"

definition or_op :: "VM \<Rightarrow> Instruction \<Rightarrow> error + (VM \<times> flags)" where
  "or_op vm i =
     bind_err (getReg vm (rs1 i)) (\<lambda>a.
     bind_err (getReg vm (rs2 i)) (\<lambda>b.
     bind_err (store vm (rd i) (a OR b)) ret))"

definition and_op :: "VM \<Rightarrow> Instruction \<Rightarrow> error + (VM \<times> flags)" where
  "and_op vm i =
     bind_err (getReg vm (rs1 i)) (\<lambda>a.
     bind_err (getReg vm (rs2 i)) (\<lambda>b.
     bind_err (store vm (rd i) (a AND b)) ret))"

definition fence :: "VM \<Rightarrow> Instruction \<Rightarrow> error + (VM \<times> flags)" where
  "fence vm i =
     ret vm"

definition fence_i :: "VM \<Rightarrow> Instruction \<Rightarrow> error + (VM \<times> flags)" where
  "fence_i vm i =
     ret vm"

definition ebreak :: "VM \<Rightarrow> Instruction \<Rightarrow> error + (VM \<times> flags)" where
  "ebreak vm i =
     ret vm"

text \<open>
  \<open>ecall\<close>. The host's \<open>fmt.Fprint\<close> is a parameter: \<open>hostWrite fd data\<close> is the
  byte count it reports. The slice \<open>vm.Mem[buf:buf+n]\<close> is taken with \<open>int\<close> bounds
  (the capacity of \<open>Mem\<close> is its length, as \<open>make\<close> gives it) and panics outside them.
  Registers a0, a1, a2, a7 are 10, 11, 12, 17 (\<open>regNums\<close>).
\<close>

definition ecall :: "(u64 \<Rightarrow> u8 list \<Rightarrow> u64) \<Rightarrow> VM \<Rightarrow> Instruction \<Rightarrow> error + (VM \<times> flags)" where
  "ecall hostWrite vm i =
     (let call = Reg vm 17 in
      if call = 0x5D then Inl ExitErr
      else if call = 0x40 then
        (let fd = Reg vm 10 in
         if fd \<noteq> 1 \<and> fd \<noteq> 2 then Inl UnrecognizedFd
         else
           (let buf = sint (Reg vm 11); e = sint (Reg vm 11 + Reg vm 12) in
            if 0 \<le> buf \<and> buf \<le> e \<and> e \<le> int (length (Mem vm)) then
              bind_err (store vm 10 (hostWrite fd (take (nat (e - buf)) (drop (nat buf) (Mem vm))))) ret
            else Inl Panic))
      else Inl UnrecognizedEcall)"

definition ecallOrBreak :: "(u64 \<Rightarrow> u8 list \<Rightarrow> u64) \<Rightarrow> VM \<Rightarrow> Instruction \<Rightarrow> error + (VM \<times> flags)" where
  "ecallOrBreak hostWrite vm i =
     (if drop_bit 12 (imm i) = 0 then ecall hostWrite vm i
      else if drop_bit 12 (imm i) = 1 then ebreak vm i
      else Inl Panic)"

definition csrrw :: "VM \<Rightarrow> Instruction \<Rightarrow> error + (VM \<times> flags)" where
  "csrrw vm i =
     (if rd i = 0 then
        bind_err (getReg vm (rs1 i)) (\<lambda>a.
        bind_err (setCSR vm (imm i) a) (\<lambda>vm.
        if imm i = RDINSTRET
        then Inr (vm, \<lparr>updatedPC = False, updatedRDINSTRET = True\<rparr>)
        else ret vm))
      else
        bind_err (getCSR vm (imm i)) (\<lambda>v.
        bind_err (getReg vm (rs1 i)) (\<lambda>a.
        bind_err (setCSR vm (imm i) a) (\<lambda>vm.
        bind_err (store vm (rd i) v) ret))))"

definition csrrs :: "VM \<Rightarrow> Instruction \<Rightarrow> error + (VM \<times> flags)" where
  "csrrs vm i =
     bind_err (getCSR vm (imm i)) (\<lambda>v.
     bind_err (if rs1 i \<noteq> 0
               then bind_err (getReg vm (rs1 i)) (\<lambda>a. setCSR vm (imm i) (v OR a))
               else Inr vm) (\<lambda>vm.
     bind_err (store vm (rd i) v) ret))"

definition csrrc :: "VM \<Rightarrow> Instruction \<Rightarrow> error + (VM \<times> flags)" where
  "csrrc vm i =
     bind_err (getCSR vm (imm i)) (\<lambda>v.
     bind_err (if rs1 i \<noteq> 0
               then bind_err (getReg vm (rs1 i)) (\<lambda>a. setCSR vm (imm i) (v AND NOT a))
               else Inr vm) (\<lambda>vm.
     bind_err (store vm (rd i) v) ret))"

definition csrrwi :: "VM \<Rightarrow> Instruction \<Rightarrow> error + (VM \<times> flags)" where
  "csrrwi vm i =
     (let uimm = signExtend (rs1 i AND 0x1f) 4 in
      if rd i = 0 then bind_err (setCSR vm (imm i) uimm) ret
      else
        bind_err (getCSR vm (imm i)) (\<lambda>v.
        bind_err (setCSR vm (imm i) uimm) (\<lambda>vm.
        bind_err (store vm (rd i) v) ret)))"

definition csrrsi :: "VM \<Rightarrow> Instruction \<Rightarrow> error + (VM \<times> flags)" where
  "csrrsi vm i =
     (let uimm = signExtend (rs1 i AND 0x1f) 4 in
      bind_err (getCSR vm (imm i)) (\<lambda>v.
      bind_err (if uimm \<noteq> 0 then setCSR vm (imm i) (v OR uimm) else Inr vm) (\<lambda>vm.
      bind_err (store vm (rd i) v) ret)))"

definition csrrci :: "VM \<Rightarrow> Instruction \<Rightarrow> error + (VM \<times> flags)" where
  "csrrci vm i =
     (let uimm = signExtend (rs1 i AND 0x1f) 4 in
      bind_err (getCSR vm (imm i)) (\<lambda>v.
      bind_err (if uimm \<noteq> 0 then setCSR vm (imm i) (v AND NOT uimm) else Inr vm) (\<lambda>vm.
      bind_err (store vm (rd i) v) ret)))"

section \<open>RV64I base instruction set\<close>

definition lwu :: "VM \<Rightarrow> Instruction \<Rightarrow> error + (VM \<times> flags)" where
  "lwu vm i =
     bind_err (addr vm i) (\<lambda>a.
     bind_err (read32 vm a) (\<lambda>v.
     bind_err (store vm (rd i) v) ret))"

definition ld :: "VM \<Rightarrow> Instruction \<Rightarrow> error + (VM \<times> flags)" where
  "ld vm i =
     bind_err (addr vm i) (\<lambda>a.
     bind_err (read64 vm a) (\<lambda>v.
     bind_err (store vm (rd i) v) ret))"

definition sd :: "VM \<Rightarrow> Instruction \<Rightarrow> error + (VM \<times> flags)" where
  "sd vm i =
     bind_err (addr vm i) (\<lambda>a.
     bind_err (getReg vm (rs2 i)) (\<lambda>v.
     bind_err (write64 vm a v) ret))"

definition slli :: "VM \<Rightarrow> Instruction \<Rightarrow> error + (VM \<times> flags)" where
  "slli vm i =
     bind_err (getReg vm (rs1 i)) (\<lambda>a.
     bind_err (store vm (rd i) (push_bit (unat (imm i AND 0x3f)) a)) ret)"

definition srli :: "VM \<Rightarrow> Instruction \<Rightarrow> error + (VM \<times> flags)" where
  "srli vm i =
     bind_err (getReg vm (rs1 i)) (\<lambda>a.
     bind_err (store vm (rd i) (drop_bit (unat (imm i AND 0x3f)) a)) ret)"

definition srai :: "VM \<Rightarrow> Instruction \<Rightarrow> error + (VM \<times> flags)" where
  "srai vm i =
     bind_err (getReg vm (rs1 i)) (\<lambda>a.
     bind_err (store vm (rd i) (signed_drop_bit (unat (imm i AND 0x3f)) a)) ret)"

text \<open>\<open>shiftRight\<close>: the switch is on \<open>in.imm & 0xFC00\<close> with the case labels \<open>0x00\<close>
  and \<open>0x10\<close>; no other value has a case, and the default panics.\<close>

definition shiftRight :: "VM \<Rightarrow> Instruction \<Rightarrow> error + (VM \<times> flags)" where
  "shiftRight vm i =
     (if imm i AND 0xFC00 = 0x00 then srli vm i
      else if imm i AND 0xFC00 = 0x10 then srai vm i
      else Inl Panic)"

definition addiw :: "VM \<Rightarrow> Instruction \<Rightarrow> error + (VM \<times> flags)" where
  "addiw vm i =
     bind_err (getReg vm (rs1 i)) (\<lambda>a.
     bind_err (store vm (rd i) (int32_to_u64 (to32 a + to32 (signExtend (imm i AND 0xfff) 11)))) ret)"

definition slliw :: "VM \<Rightarrow> Instruction \<Rightarrow> error + (VM \<times> flags)" where
  "slliw vm i =
     bind_err (getReg vm (rs1 i)) (\<lambda>a.
     bind_err (store vm (rd i) (signExtend (uint32_to_u64 (push_bit (unat (imm i AND 0x1f)) (to32 a))) 31)) ret)"

definition srliw :: "VM \<Rightarrow> Instruction \<Rightarrow> error + (VM \<times> flags)" where
  "srliw vm i =
     bind_err (getReg vm (rs1 i)) (\<lambda>a.
     bind_err (store vm (rd i) (signExtend (uint32_to_u64 (drop_bit (unat (imm i AND 0x1f)) (to32 a))) 31)) ret)"

definition sraiw :: "VM \<Rightarrow> Instruction \<Rightarrow> error + (VM \<times> flags)" where
  "sraiw vm i =
     bind_err (getReg vm (rs1 i)) (\<lambda>a.
     bind_err (store vm (rd i) (int32_to_u64 (signed_drop_bit (unat (imm i AND 0x1f)) (to32 a)))) ret)"

definition addw :: "VM \<Rightarrow> Instruction \<Rightarrow> error + (VM \<times> flags)" where
  "addw vm i =
     bind_err (getReg vm (rs1 i)) (\<lambda>a.
     bind_err (getReg vm (rs2 i)) (\<lambda>b.
     bind_err (store vm (rd i) (int32_to_u64 (to32 a + to32 b))) ret))"

definition subw :: "VM \<Rightarrow> Instruction \<Rightarrow> error + (VM \<times> flags)" where
  "subw vm i =
     bind_err (getReg vm (rs1 i)) (\<lambda>a.
     bind_err (getReg vm (rs2 i)) (\<lambda>b.
     bind_err (store vm (rd i) (int32_to_u64 (to32 a - to32 b))) ret))"

definition sllw :: "VM \<Rightarrow> Instruction \<Rightarrow> error + (VM \<times> flags)" where
  "sllw vm i =
     bind_err (getReg vm (rs1 i)) (\<lambda>a.
     bind_err (getReg vm (rs2 i)) (\<lambda>b.
     bind_err (store vm (rd i) (signExtend (uint32_to_u64 (push_bit (unat (to32 (b AND 0x1f))) (to32 a))) 31)) ret))"

definition srlw :: "VM \<Rightarrow> Instruction \<Rightarrow> error + (VM \<times> flags)" where
  "srlw vm i =
     bind_err (getReg vm (rs1 i)) (\<lambda>a.
     bind_err (getReg vm (rs2 i)) (\<lambda>b.
     bind_err (store vm (rd i) (signExtend (uint32_to_u64 (drop_bit (unat (to32 (b AND 0x1f))) (to32 a))) 31)) ret))"

definition sraw :: "VM \<Rightarrow> Instruction \<Rightarrow> error + (VM \<times> flags)" where
  "sraw vm i =
     bind_err (getReg vm (rs1 i)) (\<lambda>a.
     bind_err (getReg vm (rs2 i)) (\<lambda>b.
     bind_err (store vm (rd i) (int32_to_u64 (signed_drop_bit (unat (to32 (b AND 0x1f))) (to32 a)))) ret))"

section \<open>"M" standard extension\<close>

text \<open>The high word of a product of two unsigned 64-bit numbers from four 32-bit
  partial products, as \<open>mulh\<close>, \<open>mulhsu\<close> and \<open>mulhu\<close> each write it out.\<close>

definition hiword :: "u64 \<Rightarrow> u64 \<Rightarrow> u64" where
  "hiword x y =
     (let ah = drop_bit 32 x; al = x AND 0xffffffff;
          bh = drop_bit 32 y; bl = y AND 0xffffffff;
          a = ah * bh; b = ah * bl; c = al * bh; d = al * bl
      in a + drop_bit 32 b + drop_bit 32 c
         + drop_bit 32 (drop_bit 32 d + (b AND 0xffffffff) + (c AND 0xffffffff)))"

text \<open>What \<open>mulh\<close> stores: both operands are replaced by their magnitudes (\<open>-n\<close> wraps),
  the high word of the unsigned product is taken, and it is negated when exactly one
  operand was negative.\<close>

definition mulh_val :: "u64 \<Rightarrow> u64 \<Rightarrow> u64" where
  "mulh_val x y =
     (let neg1 = x <s 0; n1 = (if neg1 then - x else x);
          neg2 = y <s 0; n2 = (if neg2 then - y else y);
          v = hiword n1 n2
      in if neg1 \<noteq> neg2 then - v else v)"

definition mulhsu_val :: "u64 \<Rightarrow> u64 \<Rightarrow> u64" where
  "mulhsu_val x y =
     (let neg = x <s 0; n1 = (if neg then - x else x);
          v = hiword n1 y
      in if neg then - v else v)"

definition mul :: "VM \<Rightarrow> Instruction \<Rightarrow> error + (VM \<times> flags)" where
  "mul vm i =
     bind_err (getReg vm (rs1 i)) (\<lambda>a.
     bind_err (getReg vm (rs2 i)) (\<lambda>b.
     bind_err (store vm (rd i) (a * b)) ret))"

definition mulh :: "VM \<Rightarrow> Instruction \<Rightarrow> error + (VM \<times> flags)" where
  "mulh vm i =
     bind_err (getReg vm (rs1 i)) (\<lambda>a.
     bind_err (getReg vm (rs2 i)) (\<lambda>b.
     bind_err (store vm (rd i) (mulh_val a b)) ret))"

definition mulhsu :: "VM \<Rightarrow> Instruction \<Rightarrow> error + (VM \<times> flags)" where
  "mulhsu vm i =
     bind_err (getReg vm (rs1 i)) (\<lambda>a.
     bind_err (getReg vm (rs2 i)) (\<lambda>b.
     bind_err (store vm (rd i) (mulhsu_val a b)) ret))"

definition mulhu :: "VM \<Rightarrow> Instruction \<Rightarrow> error + (VM \<times> flags)" where
  "mulhu vm i =
     bind_err (getReg vm (rs1 i)) (\<lambda>a.
     bind_err (getReg vm (rs2 i)) (\<lambda>b.
     bind_err (store vm (rd i) (hiword a b)) ret))"

definition mulw :: "VM \<Rightarrow> Instruction \<Rightarrow> error + (VM \<times> flags)" where
  "mulw vm i =
     bind_err (getReg vm (rs1 i)) (\<lambda>a.
     bind_err (getReg vm (rs2 i)) (\<lambda>b.
     bind_err (store vm (rd i) (int32_to_u64 (to32 a * to32 b))) ret))"

text \<open>Division and remainder. Go's integer division panics on a zero divisor, so a
  handler whose zero test looks at more bits than its division does can still panic.\<close>

definition div_op :: "VM \<Rightarrow> Instruction \<Rightarrow> error + (VM \<times> flags)" where
  "div_op vm i =
     bind_err (getReg vm (rs2 i)) (\<lambda>b.
     if b = 0 then
       bind_err (getReg vm (rs1 i)) (\<lambda>a. bind_err (store vm (rd i) (0xFFFFFFFFFFFFFFFF)) ret)
     else
       bind_err (getReg vm (rs1 i)) (\<lambda>a.
       bind_err (store vm (rd i) (quot64 a b)) ret))"

definition divu :: "VM \<Rightarrow> Instruction \<Rightarrow> error + (VM \<times> flags)" where
  "divu vm i =
     bind_err (getReg vm (rs2 i)) (\<lambda>b.
     if b = 0 then
       bind_err (getReg vm (rs1 i)) (\<lambda>a. bind_err (store vm (rd i) (0xFFFFFFFFFFFFFFFF)) ret)
     else
       bind_err (getReg vm (rs1 i)) (\<lambda>a.
       bind_err (store vm (rd i) (a div b)) ret))"

definition divw :: "VM \<Rightarrow> Instruction \<Rightarrow> error + (VM \<times> flags)" where
  "divw vm i =
     bind_err (getReg vm (rs2 i)) (\<lambda>b.
     if to32 b = 0 then
       bind_err (getReg vm (rs1 i)) (\<lambda>a. bind_err (store vm (rd i) (0xFFFFFFFFFFFFFFFF)) ret)
     else
       bind_err (getReg vm (rs1 i)) (\<lambda>a.
       bind_err (store vm (rd i) (signExtend (int32_to_u64 (quot32 (to32 a) (to32 b))) 31)) ret))"

definition divuw :: "VM \<Rightarrow> Instruction \<Rightarrow> error + (VM \<times> flags)" where
  "divuw vm i =
     bind_err (getReg vm (rs2 i)) (\<lambda>b.
     if to32 b = 0 then
       bind_err (getReg vm (rs1 i)) (\<lambda>a. bind_err (store vm (rd i) (0xFFFFFFFFFFFFFFFF)) ret)
     else
       bind_err (getReg vm (rs1 i)) (\<lambda>a.
       bind_err (store vm (rd i) (signExtend (uint32_to_u64 (to32 a div to32 b)) 31)) ret))"

definition rem_op :: "VM \<Rightarrow> Instruction \<Rightarrow> error + (VM \<times> flags)" where
  "rem_op vm i =
     bind_err (getReg vm (rs2 i)) (\<lambda>b.
     if b = 0 then
       bind_err (getReg vm (rs1 i)) (\<lambda>a. bind_err (store vm (rd i) (a)) ret)
     else
       bind_err (getReg vm (rs1 i)) (\<lambda>a.
       bind_err (store vm (rd i) (rem64 a b)) ret))"

definition remu :: "VM \<Rightarrow> Instruction \<Rightarrow> error + (VM \<times> flags)" where
  "remu vm i =
     bind_err (getReg vm (rs2 i)) (\<lambda>b.
     if b = 0 then
       bind_err (getReg vm (rs1 i)) (\<lambda>a. bind_err (store vm (rd i) (a)) ret)
     else
       bind_err (getReg vm (rs1 i)) (\<lambda>a.
       bind_err (store vm (rd i) (a mod b)) ret))"

definition remw :: "VM \<Rightarrow> Instruction \<Rightarrow> error + (VM \<times> flags)" where
  "remw vm i =
     bind_err (getReg vm (rs2 i)) (\<lambda>b.
     if b = 0 then
       bind_err (getReg vm (rs1 i)) (\<lambda>a. bind_err (store vm (rd i) (a)) ret)
     else
       bind_err (getReg vm (rs1 i)) (\<lambda>a.
       if to32 b = 0 then Inl Panic else bind_err (store vm (rd i) (int32_to_u64 (rem32 (to32 a) (to32 b)))) ret))"

definition remuw :: "VM \<Rightarrow> Instruction \<Rightarrow> error + (VM \<times> flags)" where
  "remuw vm i =
     bind_err (getReg vm (rs2 i)) (\<lambda>b.
     if b = 0 then
       bind_err (getReg vm (rs1 i)) (\<lambda>a. bind_err (store vm (rd i) (a)) ret)
     else
       bind_err (getReg vm (rs1 i)) (\<lambda>a.
       if to32 b = 0 then Inl Panic else bind_err (store vm (rd i) (signExtend (uint32_to_u64 (to32 a mod to32 b)) 31)) ret))"

section \<open>Compressed jump helpers (rvc.go)\<close>

definition rvcJAL :: "VM \<Rightarrow> Instruction \<Rightarrow> error + (VM \<times> flags)" where
  "rvcJAL vm i =
     bind_err (store vm (rd i) (PC vm + 2)) (\<lambda>vm.
     retPC (vm\<lparr>PC := imm i + PC vm\<rparr>))"

definition rvcJALR :: "VM \<Rightarrow> Instruction \<Rightarrow> error + (VM \<times> flags)" where
  "rvcJALR vm i =
     bind_err (store vm (rd i) (PC vm + 2)) (\<lambda>vm.
     bind_err (getReg vm (rs1 i)) (\<lambda>a.
     retPC (vm\<lparr>PC := (imm i + a) AND NOT 1\<rparr>)))"

section \<open>Dispatch\<close>

text \<open>Calling \<open>in.fn(vm, in)\<close>.\<close>

definition exec :: "(u64 \<Rightarrow> u8 list \<Rightarrow> u64) \<Rightarrow> VM \<Rightarrow> Instruction \<Rightarrow> error + (VM \<times> flags)" where
  "exec hostWrite vm i =
     (case fn i of
        F_lui \<Rightarrow> lui vm i | F_auipc \<Rightarrow> auipc vm i | F_jal \<Rightarrow> jal vm i | F_jalr \<Rightarrow> jalr vm i
      | F_beq \<Rightarrow> beq vm i | F_bne \<Rightarrow> bne vm i | F_blt \<Rightarrow> blt vm i | F_bge \<Rightarrow> bge vm i
      | F_bltu \<Rightarrow> bltu vm i | F_bgeu \<Rightarrow> bgeu vm i
      | F_lb \<Rightarrow> lb vm i | F_lh \<Rightarrow> lh vm i | F_lw \<Rightarrow> lw vm i | F_lbu \<Rightarrow> lbu vm i
      | F_lhu \<Rightarrow> lhu vm i | F_sb \<Rightarrow> sb vm i | F_sh \<Rightarrow> sh vm i | F_sw \<Rightarrow> sw vm i
      | F_addi \<Rightarrow> addi vm i | F_slti \<Rightarrow> slti vm i | F_sltiu \<Rightarrow> sltiu vm i
      | F_xori \<Rightarrow> xori vm i | F_ori \<Rightarrow> ori vm i | F_andi \<Rightarrow> andi vm i
      | F_add \<Rightarrow> add vm i | F_sub \<Rightarrow> sub vm i | F_sll \<Rightarrow> sll vm i | F_slt \<Rightarrow> slt vm i
      | F_sltu \<Rightarrow> sltu vm i | F_xor \<Rightarrow> xor_op vm i | F_srl \<Rightarrow> srl vm i | F_sra \<Rightarrow> sra vm i
      | F_or \<Rightarrow> or_op vm i | F_and \<Rightarrow> and_op vm i
      | F_fence \<Rightarrow> fence vm i | F_fence_i \<Rightarrow> fence_i vm i
      | F_ecallOrBreak \<Rightarrow> ecallOrBreak hostWrite vm i | F_ecall \<Rightarrow> ecall hostWrite vm i
      | F_ebreak \<Rightarrow> ebreak vm i
      | F_csrrw \<Rightarrow> csrrw vm i | F_csrrs \<Rightarrow> csrrs vm i | F_csrrc \<Rightarrow> csrrc vm i
      | F_csrrwi \<Rightarrow> csrrwi vm i | F_csrrsi \<Rightarrow> csrrsi vm i | F_csrrci \<Rightarrow> csrrci vm i
      | F_lwu \<Rightarrow> lwu vm i | F_ld \<Rightarrow> ld vm i | F_sd \<Rightarrow> sd vm i
      | F_slli \<Rightarrow> slli vm i | F_shiftRight \<Rightarrow> shiftRight vm i
      | F_srli \<Rightarrow> srli vm i | F_srai \<Rightarrow> srai vm i
      | F_addiw \<Rightarrow> addiw vm i | F_slliw \<Rightarrow> slliw vm i | F_srliw \<Rightarrow> srliw vm i
      | F_sraiw \<Rightarrow> sraiw vm i
      | F_addw \<Rightarrow> addw vm i | F_subw \<Rightarrow> subw vm i | F_sllw \<Rightarrow> sllw vm i
      | F_srlw \<Rightarrow> srlw vm i | F_sraw \<Rightarrow> sraw vm i
      | F_mul \<Rightarrow> mul vm i | F_mulh \<Rightarrow> mulh vm i | F_mulhsu \<Rightarrow> mulhsu vm i
      | F_mulhu \<Rightarrow> mulhu vm i
      | F_div \<Rightarrow> div_op vm i | F_divu \<Rightarrow> divu vm i | F_rem \<Rightarrow> rem_op vm i
      | F_remu \<Rightarrow> remu vm i
      | F_mulw \<Rightarrow> mulw vm i | F_divw \<Rightarrow> divw vm i | F_divuw \<Rightarrow> divuw vm i
      | F_remw \<Rightarrow> remw vm i | F_remuw \<Rightarrow> remuw vm i
      | F_rvcJAL \<Rightarrow> rvcJAL vm i | F_rvcJALR \<Rightarrow> rvcJALR vm i)"

section \<open>Decoding\<close>

text \<open>An \<open>Instruction\<close> literal: the fields it does not name are zero.\<close>

definition mkInstr :: "op \<Rightarrow> u64 \<Rightarrow> u64 \<Rightarrow> u64 \<Rightarrow> u64 \<Rightarrow> Instruction" where
  "mkInstr f d s1 s2 im = \<lparr>fn = f, rs1 = s1, rs2 = s2, rd = d, imm = im, raw = 0\<rparr>"

definition rvcRegOffset :: u64 where "rvcRegOffset = 8"

text \<open>The field extractors of rvc.go; the arithmetic is on \<open>uint16\<close>, the results are
  widened to \<open>uint64\<close>.\<close>

definition decodeCR :: "u16 \<Rightarrow> u64 \<times> u64" where
  "decodeCR w = (ucast (drop_bit 7 w AND 0x1f), ucast (drop_bit 2 w AND 0x1f))"

definition decodeCI :: "u16 \<Rightarrow> u64 \<times> u64" where
  "decodeCI w = (ucast ((drop_bit 7 w AND 0x20) OR (drop_bit 2 w AND 0x1f)),
                 ucast (drop_bit 7 w AND 0x1f))"

definition decodeCSS :: "u16 \<Rightarrow> u64 \<times> u64" where
  "decodeCSS w = (ucast (drop_bit 7 w AND 0x3f), ucast (drop_bit 2 w AND 0x1f))"

definition decodeCIW :: "u16 \<Rightarrow> u64 \<times> u64" where
  "decodeCIW w = (ucast (drop_bit 5 w AND 0xff), ucast (drop_bit 2 w AND 0x7) + rvcRegOffset)"

definition decodeCL :: "u16 \<Rightarrow> u64 \<times> u64 \<times> u64" where
  "decodeCL w = (ucast ((drop_bit 8 w AND 0x1c) OR (drop_bit 5 w AND 0x3)),
                 ucast (drop_bit 7 w AND 0x7) + rvcRegOffset,
                 ucast (drop_bit 2 w AND 0x7) + rvcRegOffset)"

definition decodeCS :: "u16 \<Rightarrow> u64 \<times> u64 \<times> u64" where
  "decodeCS w = (ucast ((drop_bit 8 w AND 0x1c) OR (drop_bit 5 w AND 0x3)),
                 ucast (drop_bit 7 w AND 0x7) + rvcRegOffset,
                 ucast (drop_bit 2 w AND 0x7) + rvcRegOffset)"

definition decodeCB :: "u16 \<Rightarrow> u64 \<times> u64" where
  "decodeCB w = (ucast ((drop_bit 5 w AND 0xe0) OR (drop_bit 2 w AND 0x1f)),
                 ucast (drop_bit 7 w AND 0x7) + rvcRegOffset)"

definition decodeShiftCB :: "u16 \<Rightarrow> u64 \<times> u64" where
  "decodeShiftCB w = (ucast (drop_bit 7 (w AND 0x1000) OR (drop_bit 2 w AND 0x1f)),
                      ucast (drop_bit 7 w AND 0x7) + rvcRegOffset)"

definition decodeCJ :: "u16 \<Rightarrow> u64" where
  "decodeCJ w = ucast (drop_bit 2 w AND 0x7ff)"

text \<open>The op-op forms under selector \<open>0x11\<close> whose bits 11:10 are both set.\<close>

definition rvcDecodeOp :: "u16 \<Rightarrow> error + Instruction" where
  "rvcDecodeOp w =
     (case decodeCS w of (_, r1, r2) \<Rightarrow>
       (let k = (drop_bit 8 w AND 0x1c) OR (drop_bit 5 w AND 0x3) in
        if k = 0xc then Inr (mkInstr F_sub r1 r1 r2 0)
        else if k = 0xd then Inr (mkInstr F_xor r1 r1 r2 0)
        else if k = 0xe then Inr (mkInstr F_or r1 r1 r2 0)
        else if k = 0xf then Inr (mkInstr F_and r1 r1 r2 0)
        else if k = 0x1c then Inr (mkInstr F_subw r1 r1 r2 0)
        else if k = 0x1d then Inr (mkInstr F_addw r1 r1 r2 0)
        else Inl Panic))"

text \<open>The forms under selector \<open>0x12\<close> (C.JR, C.MV, C.EBREAK, C.JALR, C.ADD).\<close>

definition rvcDecodeCR :: "u16 \<Rightarrow> error + Instruction" where
  "rvcDecodeCR w =
     (case decodeCR w of (r1, r2) \<Rightarrow>
       (let b = w AND 0x1000 in
        if b = 0 \<and> r2 = 0 then Inr (mkInstr F_rvcJALR Zero r1 0 0)
        else if b = 0 then Inr (mkInstr F_add r1 Zero r2 0)
        else if b = 0x1000 \<and> r1 = 0 \<and> r2 = 0 then Inr (mkInstr F_ebreak 0 0 0 0)
        else if b = 0x1000 \<and> r2 = 0 then Inr (mkInstr F_rvcJALR RA r1 0 0)
        else Inr (mkInstr F_add r1 r1 r2 0)))"

definition rvcDecode :: "u16 \<Rightarrow> error + Instruction" where
  "rvcDecode w =
     (if w = 0 then Inl IllegalInstruction
      else
       (let sel = (drop_bit 11 w AND 0x1c) OR (w AND 0x3) in
        if sel = 0x00 then
          (case decodeCIW w of (im, r) \<Rightarrow>
             Inr (mkInstr F_addi r SP 0
                   (drop_bit 2 (im AND 0xc0) OR push_bit 4 (im AND 0x3c)
                    OR push_bit 1 (im AND 0x2) OR push_bit 3 (im AND 0x1))))
        else if sel = 0x04 then Inl Panic
        else if sel = 0x08 then
          (case decodeCL w of (im, r1, r2) \<Rightarrow>
             Inr (mkInstr F_lw r2 r1 0 (push_bit 1 ((push_bit 5 im OR im) AND 0x3e))))
        else if sel = 0x0C then
          (case decodeCL w of (im, r1, r2) \<Rightarrow>
             Inr (mkInstr F_ld r2 r1 0 ((push_bit 6 im OR push_bit 1 im) AND 0xf8)))
        else if sel = 0x10 then Inl Panic
        else if sel = 0x14 then Inl Panic
        else if sel = 0x18 then
          (case decodeCS w of (im, r1, r2) \<Rightarrow>
             Inr (mkInstr F_sw 0 r1 r2 (push_bit 1 (push_bit 5 im OR im) AND 0x7c)))
        else if sel = 0x1C then
          (case decodeCS w of (im, r1, r2) \<Rightarrow>
             Inr (mkInstr F_sd 0 r1 r2 (push_bit 1 (push_bit 5 im OR im) AND 0xf8)))
        else if sel = 0x01 then
          (case decodeCI w of (im, r) \<Rightarrow> Inr (mkInstr F_addi r r 0 (signExtend im 5)))
        else if sel = 0x05 then
          (case decodeCI w of (im, r) \<Rightarrow> Inr (mkInstr F_addiw r r 0 (signExtend im 5)))
        else if sel = 0x09 then
          (case decodeCI w of (im, r) \<Rightarrow> Inr (mkInstr F_addi r Zero 0 (signExtend im 5)))
        else if sel = 0x0D then
          (case decodeCI w of (im, r) \<Rightarrow>
             if r \<noteq> 2 then Inr (mkInstr F_lui r 0 0 (signExtend (push_bit 12 im) 17))
             else Inr (mkInstr F_addi SP SP 0
                        (signExtend (push_bit 4 (im AND 0x20) OR (im AND 0x10)
                                     OR push_bit 3 (im AND 0x8) OR push_bit 6 (im AND 0x6)
                                     OR push_bit 5 (im AND 0x1)) 9)))
        else if sel = 0x11 then
          (let k = drop_bit 10 w AND 0x3 in
           if k = 0x00 then (case decodeShiftCB w of (im, r) \<Rightarrow> Inr (mkInstr F_srli r r 0 im))
           else if k = 0x01 then (case decodeShiftCB w of (im, r) \<Rightarrow> Inr (mkInstr F_srai r r 0 im))
           else if k = 0x02 then (case decodeShiftCB w of (im, r) \<Rightarrow> Inr (mkInstr F_andi r r 0 im))
           else rvcDecodeOp w)
        else if sel = 0x15 then
          (let im = decodeCJ w in
           Inr (mkInstr F_rvcJAL Zero 0 0
                 (signExtend (drop_bit 5 (im AND 0x200) OR push_bit 4 (im AND 0x40)
                              OR push_bit 1 (im AND 0x5a0) OR push_bit 3 (im AND 0x10)
                              OR (im AND 0xe) OR push_bit 5 (im AND 1)) 11)))
        else if sel = 0x19 then
          (case decodeCB w of (im, r) \<Rightarrow>
             Inr (mkInstr F_beq 0 r Zero
                   (signExtend (push_bit 1 (im AND 0x80) OR drop_bit 2 (im AND 0x60)
                                OR push_bit 3 (im AND 0x18) OR (im AND 0x6)
                                OR push_bit 5 (im AND 0x1)) 8)))
        else if sel = 0x1D then
          (case decodeCB w of (im, r) \<Rightarrow>
             Inr (mkInstr F_bne 0 r Zero
                   (signExtend (push_bit 1 (im AND 0x80) OR drop_bit 2 (im AND 0x60)
                                OR push_bit 3 (im AND 0x18) OR (im AND 0x6)
                                OR push_bit 5 (im AND 0x1)) 8)))
        else if sel = 0x02 then
          (case decodeCI w of (im, r) \<Rightarrow> Inr (mkInstr F_slli r r 0 im))
        else if sel = 0x06 then Inl Panic
        else if sel = 0x0A then
          (case decodeCI w of (im, r) \<Rightarrow>
             Inr (mkInstr F_lw r SP 0 ((push_bit 6 im OR im) AND 0xfc)))
        else if sel = 0x0E then
          (case decodeCI w of (im, r) \<Rightarrow>
             Inr (mkInstr F_ld r SP 0 ((push_bit 6 im OR im) AND 0x1f8)))
        else if sel = 0x12 then rvcDecodeCR w
        else if sel = 0x16 then Inl Panic
        else if sel = 0x1A then
          (case decodeCSS w of (im, r) \<Rightarrow>
             Inr (mkInstr F_sw 0 SP r ((push_bit 6 im OR im) AND 0xfc)))
        else if sel = 0x1E then
          (case decodeCSS w of (im, r) \<Rightarrow>
             Inr (mkInstr F_sd 0 SP r ((push_bit 6 im OR im) AND 0x1f8)))
        else Inl Panic))"

text \<open>\<open>rvi64Instructions\<close>: a sparse array indexed by \<open>funct7 | funct3 | opcode>>2\<close>; its
  length is one more than its largest index, \<open>0x20AE\<close>, and the entries not listed are
  \<open>nil\<close>.\<close>

definition rvi64Instructions :: "(nat \<times> op) list" where
  "rvi64Instructions =
     [(0x0D, F_lui), (0x05, F_auipc), (0x1B, F_jal), (0x19, F_jalr),
      (0x18, F_beq), (0x38, F_bne), (0x98, F_blt), (0xB8, F_bge), (0xD8, F_bltu),
      (0xF8, F_bgeu),
      (0x00, F_lb), (0x20, F_lh), (0x40, F_lw), (0x80, F_lbu), (0xA0, F_lhu),
      (0x08, F_sb), (0x28, F_sh), (0x48, F_sw),
      (0x04, F_addi), (0x44, F_slti), (0x64, F_sltiu), (0x84, F_xori), (0xC4, F_ori),
      (0xE4, F_andi),
      (0x000C, F_add), (0x200C, F_sub), (0x002C, F_sll), (0x004C, F_slt), (0x006C, F_sltu),
      (0x008C, F_xor), (0x00AC, F_srl), (0x20AC, F_sra), (0x0CC, F_or), (0x0EC, F_and),
      (0x03, F_fence), (0x23, F_fence_i), (0x1C, F_ecallOrBreak),
      (0x3C, F_csrrw), (0x5C, F_csrrs), (0x7C, F_csrrc),
      (0xBC, F_csrrwi), (0xDC, F_csrrsi), (0xFC, F_csrrci),
      (0xC0, F_lwu), (0x60, F_ld), (0x68, F_sd), (0x24, F_slli), (0xA4, F_shiftRight),
      (0x06, F_addiw), (0x0026, F_slliw), (0x00A6, F_srliw), (0x20A6, F_sraiw),
      (0x000E, F_addw), (0x200E, F_subw), (0x002E, F_sllw), (0x00AE, F_srlw),
      (0x20AE, F_sraw),
      (0x10C, F_mul), (0x12C, F_mulh), (0x14C, F_mulhsu), (0x16C, F_mulhu),
      (0x18C, F_div), (0x1AC, F_divu), (0x1CC, F_rem), (0x1EC, F_remu),
      (0x10E, F_mulw), (0x18E, F_divw), (0x1AE, F_divuw), (0x1CE, F_remw),
      (0x1EE, F_remuw)]"

definition decodeSize :: "u8 list \<Rightarrow> error + (nat \<times> bool)" where
  "decodeSize b =
     (case b of
        [] \<Rightarrow> Inl Panic
      | b0 # bs \<Rightarrow>
          if b0 AND 0x3 \<noteq> 0x3 then Inr (2, True)
          else if b0 AND 0x1f \<noteq> 0x1f then Inr (4, True)
          else if b0 AND 0x3f = 0x1f then Inr (3, True)
          else if b0 AND 0x7f = 0x3f then Inr (4, True)
          else if b0 AND 0x7f = 0x7f then
            (case bs of
               [] \<Rightarrow> Inl Panic
             | b1 # _ \<Rightarrow>
                 (let n = drop_bit 4 b1 AND 0x7 in
                  if n = 7 then Inr (0, False) else Inr (5 + 2 * unat n, True)))
          else Inl Panic)"

text \<open>The 32-bit part of \<open>Decode\<close>, from the assembled word \<open>w\<close>. In the source the
  handler field is \<open>nil\<close> until the format or the table sets it; here it starts as a
  placeholder that every returning path overwrites. Indexing the table beyond its
  last entry panics.\<close>

definition decodeRVI :: "u64 \<Rightarrow> error + (Instruction \<times> nat)" where
  "decodeRVI w =
     (let out = \<lparr>fn = F_lui, rs1 = drop_bit 15 w AND 0x1f, rs2 = drop_bit 20 w AND 0x1f,
                 rd = drop_bit 7 w AND 0x1f, imm = 0, raw = w\<rparr>;
          bop = drop_bit 2 w AND 0x1f;
          lookup = (\<lambda>funct7 out.
             (let key = unat (funct7 OR (drop_bit 7 w AND 0xE0) OR (drop_bit 2 w AND 0x1f)) in
              if key > 0x20AE then Inl Panic
              else (case map_of rvi64Instructions key of
                      None \<Rightarrow> Inl NoTableEntry
                    | Some f \<Rightarrow> Inr (out\<lparr>fn := f\<rparr>, 4))))
      in
      if bop \<in> {0x0b, 0x0c, 0x0e, 0x14} then lookup (drop_bit 17 w AND 0x7f00) out
      else if bop \<in> {0x00, 0x01, 0x03, 0x04, 0x06, 0x19, 0x1c} then
        lookup 0 (out\<lparr>imm := drop_bit 20 w AND 0xfff\<rparr>)
      else if bop \<in> {0x08, 0x09} then
        lookup 0 (out\<lparr>imm := (drop_bit 20 w AND 0xFE0) OR (drop_bit 7 w AND 0x1f)\<rparr>)
      else if bop = 0x18 then
        lookup 0 (out\<lparr>imm := (drop_bit 19 w AND 0x1000) OR (push_bit 4 w AND 0x800)
                           OR (drop_bit 20 w AND 0x7e0) OR (drop_bit 7 w AND 0x1e)\<rparr>)
      else if bop \<in> {0x05, 0x0d} then
        (if bop = 0x0D then Inr (out\<lparr>imm := w AND 0xFFFFF000, fn := F_lui\<rparr>, 4)
         else if bop = 0x05 then Inr (out\<lparr>imm := w AND 0xFFFFF000, fn := F_auipc\<rparr>, 4)
         else Inl BadUType)
      else if bop = 0x1b then
        Inr (out\<lparr>imm := (drop_bit 11 w AND 0x100000) OR (w AND 0xff000)
                        OR (drop_bit 9 w AND 0x800) OR (drop_bit 20 w AND 0x7fe),
                 fn := F_jal\<rparr>, 4)
      else Inl UnrecognizedFormat)"

definition Decode :: "u64 \<Rightarrow> u8 list \<Rightarrow> error + (Instruction \<times> nat)" where
  "Decode pc b =
     (if length b = 0 \<or> length b mod 2 \<noteq> 0 then Inl BadLength
      else
        bind_err (decodeSize b) (\<lambda>(sz, ok).
        if \<not> ok then Inl UnsupportedSize
        else if length b < sz then Inl NotEnoughBytes
        else if sz = 2 then
          (let instr = (push_bit 8 (ucast (b ! 1)) OR ucast (b ! 0) :: u16) in
           bind_err (rvcDecode instr) (\<lambda>i. Inr (i\<lparr>raw := ucast instr\<rparr>, 2)))
        else if sz \<noteq> 4 then Inl InstrSizeNotSupported
        else decodeRVI (push_bit 24 (ucast (b ! 3)) OR push_bit 16 (ucast (b ! 2))
                        OR push_bit 8 (ucast (b ! 1)) OR ucast (b ! 0))))"

section \<open>The fetch/execute loop\<close>

text \<open>The slice \<open>vm.Mem[vm.PC:end]\<close> of \<open>Run\<close>, where \<open>end\<close> is \<open>int(vm.PC + 4)\<close> cut down
  to the length of the memory; a slice expression panics unless
  \<open>0 \<le> low \<le> high \<le> cap\<close>.\<close>

definition fetch :: "VM \<Rightarrow> error + u8 list" where
  "fetch vm =
     (let e0 = sint (PC vm + 4);
          e = (if e0 > int (length (Mem vm)) then int (length (Mem vm)) else e0)
      in if uint (PC vm) \<le> e
         then Inr (take (nat e - unat (PC vm)) (drop (unat (PC vm)) (Mem vm)))
         else Inl Panic)"

text \<open>
  One iteration of the loop of \<open>Run\<close>. The result is the machine and the error the
  iteration returned, if any. An error leaves the machine as the failing call found
  it (\<open>ecall\<close> returns its errors before it writes anything); after a panic the program
  is gone and the machine returned is only a placeholder. The debug printing has no
  effect on the machine and is left out; \<open>in.fn == nil\<close> cannot happen, since \<open>Decode\<close>
  returns an error instead of an instruction without a handler.
\<close>

definition step :: "(u64 \<Rightarrow> u8 list \<Rightarrow> u64) \<Rightarrow> VM \<Rightarrow> VM \<times> error option" where
  "step hostWrite vm =
     (case bind_err (fetch vm) (Decode (PC vm)) of
        Inl e \<Rightarrow> (vm, Some e)
      | Inr (i, sz) \<Rightarrow>
          (let vm1 = vm\<lparr>LastPC := PC vm, LastInstr := Some i\<rparr> in
           case exec hostWrite vm1 i of
             Inl e \<Rightarrow> (vm1, Some e)
           | Inr (vm2, out) \<Rightarrow>
               (let vm3 = vm2\<lparr>Steps := Steps vm2 + 1\<rparr>;
                    vm4 = (if \<not> updatedRDINSTRET out
                           then vm3\<lparr>CSR := (CSR vm3)(unat RDINSTRET := CSR vm3 (unat RDINSTRET) + 1)\<rparr>
                           else vm3);
                    vm5 = (if \<not> updatedPC out then vm4\<lparr>PC := PC vm4 + of_nat sz\<rparr> else vm4)
                in (vm5, None))))"

fun Run_loop :: "(u64 \<Rightarrow> u8 list \<Rightarrow> u64) \<Rightarrow> nat \<Rightarrow> VM \<Rightarrow> VM \<times> error option" where
  "Run_loop hostWrite 0 vm = (vm, None)"
| "Run_loop hostWrite (Suc n) vm =
     (case step hostWrite vm of
        (vm', Some e) \<Rightarrow> (vm', Some e)
      | (vm', None) \<Rightarrow> Run_loop hostWrite n vm')"

definition Run :: "(u64 \<Rightarrow> u8 list \<Rightarrow> u64) \<Rightarrow> int \<Rightarrow> VM \<Rightarrow> VM \<times> error option" where
  "Run hostWrite n vm = Run_loop hostWrite (nat n) vm"

section \<open>Stack initialisation (NewVM)\<close>

text \<open>\<open>VM.Memory\<close>: the little-endian 64-bit word at an address.\<close>

definition Memory :: "VM \<Rightarrow> u64 \<Rightarrow> error + u64" where
  "Memory vm a = read64 vm a"

definition pushUint64 :: "VM \<Rightarrow> u64 \<Rightarrow> error + VM" where
  "pushUint64 vm v =
     (let vm1 = vm\<lparr>Reg := (Reg vm)(unat SP := Reg vm (unat SP) - 8)\<rparr>
      in write64 vm1 (Reg vm1 (unat SP)) v)"

text \<open>The loop \<open>for i, b := range bs\<close> of \<open>pushCString\<close>, from index \<open>i\<close> on.\<close>

fun writeBytes :: "VM \<Rightarrow> u64 \<Rightarrow> nat \<Rightarrow> u8 list \<Rightarrow> error + VM" where
  "writeBytes vm a i [] = Inr vm"
| "writeBytes vm a i (b # bs) =
     bind_err (setMem vm (a + of_nat i) b) (\<lambda>vm. writeBytes vm a (Suc i) bs)"

definition pushCString :: "VM \<Rightarrow> u8 list \<Rightarrow> error + VM" where
  "pushCString vm s =
     (let vm1 = vm\<lparr>Reg := (Reg vm)(unat SP := Reg vm (unat SP) - of_nat (length s + 1))\<rparr>;
          a = Reg vm1 (unat SP)
      in bind_err (writeBytes vm1 a 0 s) (\<lambda>vm. setMem vm (a + of_nat (length s)) 0))"

text \<open>The two loops that push the strings from the last to the first and record
  where each one starts; the argument is the list already reversed.\<close>

fun pushStrings :: "VM \<Rightarrow> u8 list list \<Rightarrow> u64 list \<Rightarrow> error + (VM \<times> u64 list)" where
  "pushStrings vm [] addrs = Inr (vm, addrs)"
| "pushStrings vm (s # ss) addrs =
     bind_err (pushCString vm s) (\<lambda>vm. pushStrings vm ss (addrs @ [Reg vm (unat SP)]))"

text \<open>\<open>for _, a := range addrs { vm.pushUint64(a) }\<close>.\<close>

fun pushAll :: "VM \<Rightarrow> u64 list \<Rightarrow> error + VM" where
  "pushAll vm [] = Inr vm"
| "pushAll vm (a # as) = bind_err (pushUint64 vm a) (\<lambda>vm. pushAll vm as)"

text \<open>\<open>memSize\<close> of \<open>NewVM\<close>: the requested size plus the room for the strings and the
  pointer table, in \<open>uint64\<close> arithmetic.\<close>

definition stackExtra :: "u8 list list \<Rightarrow> u8 list list \<Rightarrow> u64" where
  "stackExtra argv env =
     (\<Sum>e\<leftarrow>env. of_nat (length e + 1)) + (\<Sum>a\<leftarrow>argv. of_nat (length a + 1))
     + of_nat (1 + length env + 1 + length argv + 1) * 8"

text \<open>A machine as \<open>&VM{PC: ..., Mem: make([]byte, n)}\<close> builds it: everything else zero.
  \<open>make\<close> panics when the length does not fit an \<open>int\<close>, that is from \<open>2^63\<close> on.\<close>

definition makeVM :: "u64 \<Rightarrow> u64 \<Rightarrow> error + VM" where
  "makeVM start n =
     (if n < 0x8000000000000000
      then Inr \<lparr>Reg = (\<lambda>_. 0), CSR = (\<lambda>_. 0), PC = start, Steps = 0,
                Mem = replicate (unat n) 0, Debug = 0, LastInstr = None, LastPC = 0\<rparr>
      else Inl Panic)"

text \<open>A \<open>nil\<close> slice ranges over nothing.\<close>

definition strings :: "u8 list list option \<Rightarrow> u8 list list" where
  "strings xs = (case xs of None \<Rightarrow> [] | Some ys \<Rightarrow> ys)"

definition NewVM :: "Prog \<Rightarrow> error + VM" where
  "NewVM p =
     bind_err (makeVM (Start p) (MemSize p)) (\<lambda>vm.
     if Argv p = None \<and> Env p = None then Inr vm
     else
       (let memSize = MemSize p + stackExtra (strings (Argv p)) (strings (Env p)) in
        bind_err (makeVM (Start p) memSize) (\<lambda>vm.
        bind_err (pushStrings (vm\<lparr>Reg := (Reg vm)(unat SP := memSize)\<rparr>)
                    (rev (strings (Env p))) [0]) (\<lambda>(vm, addrs).
        bind_err (pushStrings vm (rev (strings (Argv p))) (addrs @ [0])) (\<lambda>(vm, addrs).
        bind_err (pushAll (vm\<lparr>Reg := (Reg vm)(unat SP := Reg vm (unat SP) AND NOT 0x7)\<rparr>) addrs)
          (\<lambda>vm.
        pushUint64 vm (of_nat (length (strings (Argv p))))))))))"

section \<open>Stack layout vocabulary\<close>

text \<open>The eight bytes \<open>pushUint64\<close> writes, lowest address first.\<close>

definition le64 :: "u64 \<Rightarrow> u8 list" where
  "le64 v = [byte v, byte (drop_bit 8 v), byte (drop_bit 16 v), byte (drop_bit 24 v),
             byte (drop_bit 32 v), byte (drop_bit 40 v), byte (drop_bit 48 v),
             byte (drop_bit 56 v)]"

text \<open>At address \<open>a\<close> the memory holds the bytes of \<open>s\<close> followed by a NUL; at address
  \<open>a\<close> it holds the little-endian 64-bit word \<open>v\<close>.\<close>

definition cstring_at :: "u8 list \<Rightarrow> nat \<Rightarrow> u8 list \<Rightarrow> bool" where
  "cstring_at M a s = (a + length s < length M \<and> take (length s + 1) (drop a M) = s @ [0])"

definition word_at :: "u8 list \<Rightarrow> nat \<Rightarrow> u64 \<Rightarrow> bool" where
  "word_at M a v = (a + 8 \<le> length M \<and> take 8 (drop a M) = le64 v)"

text \<open>The room \<open>NewVM\<close> adds to the requested size, as a number: every string with its
  NUL, and eight bytes for \<open>argc\<close>, each pointer and the two null words.\<close>

definition extraBytes :: "u8 list list \<Rightarrow> u8 list list \<Rightarrow> nat" where
  "extraBytes argv env =
     (\<Sum>s\<leftarrow>argv. length s + 1) + (\<Sum>s\<leftarrow>env. length s + 1) + 8 * (length argv + length env + 3)"

text \<open>The strings of a list laid out one after the other, each followed by its NUL, and
  the address of each when the first starts at \<open>a\<close>.\<close>

definition cstrings :: "u8 list list \<Rightarrow> u8 list" where
  "cstrings ss = concat (map (\<lambda>s. s @ [0]) ss)"

fun offsets :: "nat \<Rightarrow> u8 list list \<Rightarrow> nat list" where
  "offsets a [] = []"
| "offsets a (s # ss) = a # offsets (a + length s + 1) ss"

text \<open>The stack pointers \<open>pushStrings\<close> records, in the order it pushes, when it starts
  with the stack pointer at \<open>sp\<close>.\<close>

fun pushedAddrs :: "nat \<Rightarrow> u8 list list \<Rightarrow> nat list" where
  "pushedAddrs sp [] = []"
| "pushedAddrs sp (s # ss) = (sp - (length s + 1)) # pushedAddrs (sp - (length s + 1)) ss"

section \<open>Example machines\<close>

text \<open>A machine with the given program counter and memory and everything else zero,
  and a host whose \<open>write\<close> always writes all it is given.\<close>

definition machine :: "u64 \<Rightarrow> u8 list \<Rightarrow> VM" where
  "machine pc mem = \<lparr>Reg = (\<lambda>_. 0), CSR = (\<lambda>_. 0), PC = pc, Steps = 0, Mem = mem,
                      Debug = 0, LastInstr = None, LastPC = 0\<rparr>"

definition setReg :: "nat \<Rightarrow> u64 \<Rightarrow> VM \<Rightarrow> VM" where
  "setReg r v vm = vm\<lparr>Reg := (Reg vm)(r := v)\<rparr>"

definition hostAll :: "u64 \<Rightarrow> u8 list \<Rightarrow> u64" where
  "hostAll fd data = of_nat (length data)"

text \<open>What the step loop leaves behind, for inspection: the decoded handler and
  immediate, the error, the program counter, a register and a CSR.\<close>

definition observe :: "nat \<Rightarrow> nat \<Rightarrow> VM \<times> error option
    \<Rightarrow> (op \<times> u64) option \<times> error option \<times> u64 \<times> u64 \<times> u64" where
  "observe r c res =
     (map_option (\<lambda>i. (fn i, imm i)) (LastInstr (fst res)), snd res, PC (fst res),
      Reg (fst res) r, CSR (fst res) c)"

text \<open>The architectural results the handlers are compared with: sign extension from a
  bit by arithmetic, and the high word of the signed 128-bit product.\<close>

definition sx :: "u64 \<Rightarrow> nat \<Rightarrow> u64" where
  "sx v n = word_of_int (signed_take_bit n (uint v))"

definition mulh_spec :: "u64 \<Rightarrow> u64 \<Rightarrow> u64" where
  "mulh_spec a b = word_of_int ((sint a * sint b) div 2 ^ 64)"

text \<open>A program with \<open>argv = ["a"]\<close>, \<open>env = ["X=1"]\<close> and 12 bytes of memory requested.\<close>

definition prog0 :: Prog where
  "prog0 = \<lparr>Argv = Some [[0x61]], Env = Some [[0x58, 0x3D, 0x31]], Start = 0, MemSize = 12\<rparr>"

section \<open>Properties\<close>

subsection \<open>Evaluation of concrete machines\<close>

lemmas ev = machine_def setReg_def hostAll_def observe_def step_def fetch_def Decode_def
  decodeSize_def decodeRVI_def rvi64Instructions_def exec_def bind_err_def store_def
  getReg_def ret_def retPC_def signExtend_def signBits_def RDINSTRET_def Let_def
  getCSR_def setCSR_def

subsection \<open>The zero register\<close>

lemma bind_err_Inr: "bind_err m f = Inr y \<longleftrightarrow> (\<exists>x. m = Inr x \<and> f x = Inr y)"
  by (cases m) (simp_all add: bind_err_def)

lemma store_reg0: "store vm r v = Inr vm' \<Longrightarrow> Reg vm' 0 = Reg vm 0"
  by (auto simp: store_def unat_eq_0 split: if_splits)

lemma setMem_Reg: "setMem vm a b = Inr vm' \<Longrightarrow> Reg vm' = Reg vm"
  by (auto simp: setMem_def split: if_splits)

lemma setCSR_Reg: "setCSR vm c v = Inr vm' \<Longrightarrow> Reg vm' = Reg vm"
  by (auto simp: setCSR_def split: if_splits)

lemma write16_Reg: "write16 vm a v = Inr vm' \<Longrightarrow> Reg vm' = Reg vm"
  by (auto simp: write16_def bind_err_Inr dest!: setMem_Reg)

lemma write32_Reg: "write32 vm a v = Inr vm' \<Longrightarrow> Reg vm' = Reg vm"
  by (auto simp: write32_def bind_err_Inr dest!: setMem_Reg)

lemma write64_Reg: "write64 vm a v = Inr vm' \<Longrightarrow> Reg vm' = Reg vm"
  by (auto simp: write64_def bind_err_Inr dest!: setMem_Reg)

lemma ret_Inr: "ret vm = Inr (vm', f) \<Longrightarrow> vm' = vm"
  by (simp add: ret_def)

lemma retPC_Inr: "retPC vm = Inr (vm', f) \<Longrightarrow> vm' = vm"
  by (simp add: retPC_def)

lemmas reg0_dest = store_reg0 setMem_Reg setCSR_Reg write16_Reg write32_Reg write64_Reg ret_Inr retPC_Inr

lemma branch_reg0: "branch c vm i = Inr (vm', f) \<Longrightarrow> Reg vm' 0 = Reg vm 0"
  by (auto simp: branch_def bind_err_Inr dest!: reg0_dest split: if_splits)

lemma lui_reg0: "lui vm i = Inr (vm', f) \<Longrightarrow> Reg vm' 0 = Reg vm 0"
  by (auto simp: lui_def bind_err_Inr Let_def dest!: reg0_dest split: if_splits)

lemma auipc_reg0: "auipc vm i = Inr (vm', f) \<Longrightarrow> Reg vm' 0 = Reg vm 0"
  by (auto simp: auipc_def bind_err_Inr Let_def dest!: reg0_dest split: if_splits)

lemma jal_reg0: "jal vm i = Inr (vm', f) \<Longrightarrow> Reg vm' 0 = Reg vm 0"
  by (auto simp: jal_def bind_err_Inr Let_def dest!: reg0_dest split: if_splits)

lemma jalr_reg0: "jalr vm i = Inr (vm', f) \<Longrightarrow> Reg vm' 0 = Reg vm 0"
  by (auto simp: jalr_def bind_err_Inr Let_def dest!: reg0_dest split: if_splits)

lemma lb_reg0: "lb vm i = Inr (vm', f) \<Longrightarrow> Reg vm' 0 = Reg vm 0"
  by (auto simp: lb_def bind_err_Inr Let_def dest!: reg0_dest split: if_splits)

lemma lh_reg0: "lh vm i = Inr (vm', f) \<Longrightarrow> Reg vm' 0 = Reg vm 0"
  by (auto simp: lh_def bind_err_Inr Let_def dest!: reg0_dest split: if_splits)

lemma lw_reg0: "lw vm i = Inr (vm', f) \<Longrightarrow> Reg vm' 0 = Reg vm 0"
  by (auto simp: lw_def bind_err_Inr Let_def dest!: reg0_dest split: if_splits)

lemma lbu_reg0: "lbu vm i = Inr (vm', f) \<Longrightarrow> Reg vm' 0 = Reg vm 0"
  by (auto simp: lbu_def bind_err_Inr Let_def dest!: reg0_dest split: if_splits)

lemma lhu_reg0: "lhu vm i = Inr (vm', f) \<Longrightarrow> Reg vm' 0 = Reg vm 0"
  by (auto simp: lhu_def bind_err_Inr Let_def dest!: reg0_dest split: if_splits)

lemma sb_reg0: "sb vm i = Inr (vm', f) \<Longrightarrow> Reg vm' 0 = Reg vm 0"
  by (auto simp: sb_def bind_err_Inr Let_def dest!: reg0_dest split: if_splits)

lemma sh_reg0: "sh vm i = Inr (vm', f) \<Longrightarrow> Reg vm' 0 = Reg vm 0"
  by (auto simp: sh_def bind_err_Inr Let_def dest!: reg0_dest split: if_splits)

lemma sw_reg0: "sw vm i = Inr (vm', f) \<Longrightarrow> Reg vm' 0 = Reg vm 0"
  by (auto simp: sw_def bind_err_Inr Let_def dest!: reg0_dest split: if_splits)

lemma addi_reg0: "addi vm i = Inr (vm', f) \<Longrightarrow> Reg vm' 0 = Reg vm 0"
  by (auto simp: addi_def bind_err_Inr Let_def dest!: reg0_dest split: if_splits)

lemma slti_reg0: "slti vm i = Inr (vm', f) \<Longrightarrow> Reg vm' 0 = Reg vm 0"
  by (auto simp: slti_def bind_err_Inr Let_def dest!: reg0_dest split: if_splits)

lemma sltiu_reg0: "sltiu vm i = Inr (vm', f) \<Longrightarrow> Reg vm' 0 = Reg vm 0"
  by (auto simp: sltiu_def bind_err_Inr Let_def dest!: reg0_dest split: if_splits)

lemma xori_reg0: "xori vm i = Inr (vm', f) \<Longrightarrow> Reg vm' 0 = Reg vm 0"
  by (auto simp: xori_def bind_err_Inr Let_def dest!: reg0_dest split: if_splits)

lemma ori_reg0: "ori vm i = Inr (vm', f) \<Longrightarrow> Reg vm' 0 = Reg vm 0"
  by (auto simp: ori_def bind_err_Inr Let_def dest!: reg0_dest split: if_splits)

lemma andi_reg0: "andi vm i = Inr (vm', f) \<Longrightarrow> Reg vm' 0 = Reg vm 0"
  by (auto simp: andi_def bind_err_Inr Let_def dest!: reg0_dest split: if_splits)

lemma add_reg0: "add vm i = Inr (vm', f) \<Longrightarrow> Reg vm' 0 = Reg vm 0"
  by (auto simp: add_def bind_err_Inr Let_def dest!: reg0_dest split: if_splits)

lemma sub_reg0: "sub vm i = Inr (vm', f) \<Longrightarrow> Reg vm' 0 = Reg vm 0"
  by (auto simp: sub_def bind_err_Inr Let_def dest!: reg0_dest split: if_splits)

lemma sll_reg0: "sll vm i = Inr (vm', f) \<Longrightarrow> Reg vm' 0 = Reg vm 0"
  by (auto simp: sll_def bind_err_Inr Let_def dest!: reg0_dest split: if_splits)

lemma slt_reg0: "slt vm i = Inr (vm', f) \<Longrightarrow> Reg vm' 0 = Reg vm 0"
  by (auto simp: slt_def bind_err_Inr Let_def dest!: reg0_dest split: if_splits)

lemma sltu_reg0: "sltu vm i = Inr (vm', f) \<Longrightarrow> Reg vm' 0 = Reg vm 0"
  by (auto simp: sltu_def bind_err_Inr Let_def dest!: reg0_dest split: if_splits)

lemma xor_op_reg0: "xor_op vm i = Inr (vm', f) \<Longrightarrow> Reg vm' 0 = Reg vm 0"
  by (auto simp: xor_op_def bind_err_Inr Let_def dest!: reg0_dest split: if_splits)

lemma srl_reg0: "srl vm i = Inr (vm', f) \<Longrightarrow> Reg vm' 0 = Reg vm 0"
  by (auto simp: srl_def bind_err_Inr Let_def dest!: reg0_dest split: if_splits)

lemma sra_reg0: "sra vm i = Inr (vm', f) \<Longrightarrow> Reg vm' 0 = Reg vm 0"
  by (auto simp: sra_def bind_err_Inr Let_def dest!: reg0_dest split: if_splits)

lemma or_op_reg0: "or_op vm i = Inr (vm', f) \<Longrightarrow> Reg vm' 0 = Reg vm 0"
  by (auto simp: or_op_def bind_err_Inr Let_def dest!: reg0_dest split: if_splits)

lemma and_op_reg0: "and_op vm i = Inr (vm', f) \<Longrightarrow> Reg vm' 0 = Reg vm 0"
  by (auto simp: and_op_def bind_err_Inr Let_def dest!: reg0_dest split: if_splits)

lemma fence_reg0: "fence vm i = Inr (vm', f) \<Longrightarrow> Reg vm' 0 = Reg vm 0"
  by (auto simp: fence_def bind_err_Inr Let_def dest!: reg0_dest split: if_splits)

lemma fence_i_reg0: "fence_i vm i = Inr (vm', f) \<Longrightarrow> Reg vm' 0 = Reg vm 0"
  by (auto simp: fence_i_def bind_err_Inr Let_def dest!: reg0_dest split: if_splits)

lemma ebreak_reg0: "ebreak vm i = Inr (vm', f) \<Longrightarrow> Reg vm' 0 = Reg vm 0"
  by (auto simp: ebreak_def bind_err_Inr Let_def dest!: reg0_dest split: if_splits)

lemma csrrw_reg0: "csrrw vm i = Inr (vm', f) \<Longrightarrow> Reg vm' 0 = Reg vm 0"
  by (auto simp: csrrw_def bind_err_Inr Let_def dest!: reg0_dest split: if_splits)

lemma csrrs_reg0: "csrrs vm i = Inr (vm', f) \<Longrightarrow> Reg vm' 0 = Reg vm 0"
  by (auto simp: csrrs_def bind_err_Inr Let_def dest!: reg0_dest split: if_splits)

lemma csrrc_reg0: "csrrc vm i = Inr (vm', f) \<Longrightarrow> Reg vm' 0 = Reg vm 0"
  by (auto simp: csrrc_def bind_err_Inr Let_def dest!: reg0_dest split: if_splits)

lemma csrrwi_reg0: "csrrwi vm i = Inr (vm', f) \<Longrightarrow> Reg vm' 0 = Reg vm 0"
  by (auto simp: csrrwi_def bind_err_Inr Let_def dest!: reg0_dest split: if_splits)

lemma csrrsi_reg0: "csrrsi vm i = Inr (vm', f) \<Longrightarrow> Reg vm' 0 = Reg vm 0"
  by (auto simp: csrrsi_def bind_err_Inr Let_def dest!: reg0_dest split: if_splits)

lemma csrrci_reg0: "csrrci vm i = Inr (vm', f) \<Longrightarrow> Reg vm' 0 = Reg vm 0"
  by (auto simp: csrrci_def bind_err_Inr Let_def dest!: reg0_dest split: if_splits)

lemma lwu_reg0: "lwu vm i = Inr (vm', f) \<Longrightarrow> Reg vm' 0 = Reg vm 0"
  by (auto simp: lwu_def bind_err_Inr Let_def dest!: reg0_dest split: if_splits)

lemma ld_reg0: "ld vm i = Inr (vm', f) \<Longrightarrow> Reg vm' 0 = Reg vm 0"
  by (auto simp: ld_def bind_err_Inr Let_def dest!: reg0_dest split: if_splits)

lemma sd_reg0: "sd vm i = Inr (vm', f) \<Longrightarrow> Reg vm' 0 = Reg vm 0"
  by (auto simp: sd_def bind_err_Inr Let_def dest!: reg0_dest split: if_splits)

lemma slli_reg0: "slli vm i = Inr (vm', f) \<Longrightarrow> Reg vm' 0 = Reg vm 0"
  by (auto simp: slli_def bind_err_Inr Let_def dest!: reg0_dest split: if_splits)

lemma srli_reg0: "srli vm i = Inr (vm', f) \<Longrightarrow> Reg vm' 0 = Reg vm 0"
  by (auto simp: srli_def bind_err_Inr Let_def dest!: reg0_dest split: if_splits)

lemma srai_reg0: "srai vm i = Inr (vm', f) \<Longrightarrow> Reg vm' 0 = Reg vm 0"
  by (auto simp: srai_def bind_err_Inr Let_def dest!: reg0_dest split: if_splits)

lemma addiw_reg0: "addiw vm i = Inr (vm', f) \<Longrightarrow> Reg vm' 0 = Reg vm 0"
  by (auto simp: addiw_def bind_err_Inr Let_def dest!: reg0_dest split: if_splits)

lemma slliw_reg0: "slliw vm i = Inr (vm', f) \<Longrightarrow> Reg vm' 0 = Reg vm 0"
  by (auto simp: slliw_def bind_err_Inr Let_def dest!: reg0_dest split: if_splits)

lemma srliw_reg0: "srliw vm i = Inr (vm', f) \<Longrightarrow> Reg vm' 0 = Reg vm 0"
  by (auto simp: srliw_def bind_err_Inr Let_def dest!: reg0_dest split: if_splits)

lemma sraiw_reg0: "sraiw vm i = Inr (vm', f) \<Longrightarrow> Reg vm' 0 = Reg vm 0"
  by (auto simp: sraiw_def bind_err_Inr Let_def dest!: reg0_dest split: if_splits)

lemma addw_reg0: "addw vm i = Inr (vm', f) \<Longrightarrow> Reg vm' 0 = Reg vm 0"
  by (auto simp: addw_def bind_err_Inr Let_def dest!: reg0_dest split: if_splits)

lemma subw_reg0: "subw vm i = Inr (vm', f) \<Longrightarrow> Reg vm' 0 = Reg vm 0"
  by (auto simp: subw_def bind_err_Inr Let_def dest!: reg0_dest split: if_splits)

lemma sllw_reg0: "sllw vm i = Inr (vm', f) \<Longrightarrow> Reg vm' 0 = Reg vm 0"
  by (auto simp: sllw_def bind_err_Inr Let_def dest!: reg0_dest split: if_splits)

lemma srlw_reg0: "srlw vm i = Inr (vm', f) \<Longrightarrow> Reg vm' 0 = Reg vm 0"
  by (auto simp: srlw_def bind_err_Inr Let_def dest!: reg0_dest split: if_splits)

lemma sraw_reg0: "sraw vm i = Inr (vm', f) \<Longrightarrow> Reg vm' 0 = Reg vm 0"
  by (auto simp: sraw_def bind_err_Inr Let_def dest!: reg0_dest split: if_splits)

lemma mul_reg0: "mul vm i = Inr (vm', f) \<Longrightarrow> Reg vm' 0 = Reg vm 0"
  by (auto simp: mul_def bind_err_Inr Let_def dest!: reg0_dest split: if_splits)

lemma mulh_reg0: "mulh vm i = Inr (vm', f) \<Longrightarrow> Reg vm' 0 = Reg vm 0"
  by (auto simp: mulh_def bind_err_Inr Let_def dest!: reg0_dest split: if_splits)

lemma mulhsu_reg0: "mulhsu vm i = Inr (vm', f) \<Longrightarrow> Reg vm' 0 = Reg vm 0"
  by (auto simp: mulhsu_def bind_err_Inr Let_def dest!: reg0_dest split: if_splits)

lemma mulhu_reg0: "mulhu vm i = Inr (vm', f) \<Longrightarrow> Reg vm' 0 = Reg vm 0"
  by (auto simp: mulhu_def bind_err_Inr Let_def dest!: reg0_dest split: if_splits)

lemma mulw_reg0: "mulw vm i = Inr (vm', f) \<Longrightarrow> Reg vm' 0 = Reg vm 0"
  by (auto simp: mulw_def bind_err_Inr Let_def dest!: reg0_dest split: if_splits)

lemma div_op_reg0: "div_op vm i = Inr (vm', f) \<Longrightarrow> Reg vm' 0 = Reg vm 0"
  by (auto simp: div_op_def bind_err_Inr Let_def dest!: reg0_dest split: if_splits)

lemma divu_reg0: "divu vm i = Inr (vm', f) \<Longrightarrow> Reg vm' 0 = Reg vm 0"
  by (auto simp: divu_def bind_err_Inr Let_def dest!: reg0_dest split: if_splits)

lemma divw_reg0: "divw vm i = Inr (vm', f) \<Longrightarrow> Reg vm' 0 = Reg vm 0"
  by (auto simp: divw_def bind_err_Inr Let_def dest!: reg0_dest split: if_splits)

lemma divuw_reg0: "divuw vm i = Inr (vm', f) \<Longrightarrow> Reg vm' 0 = Reg vm 0"
  by (auto simp: divuw_def bind_err_Inr Let_def dest!: reg0_dest split: if_splits)

lemma rem_op_reg0: "rem_op vm i = Inr (vm', f) \<Longrightarrow> Reg vm' 0 = Reg vm 0"
  by (auto simp: rem_op_def bind_err_Inr Let_def dest!: reg0_dest split: if_splits)

lemma remu_reg0: "remu vm i = Inr (vm', f) \<Longrightarrow> Reg vm' 0 = Reg vm 0"
  by (auto simp: remu_def bind_err_Inr Let_def dest!: reg0_dest split: if_splits)

lemma remw_reg0: "remw vm i = Inr (vm', f) \<Longrightarrow> Reg vm' 0 = Reg vm 0"
  by (auto simp: remw_def bind_err_Inr Let_def dest!: reg0_dest split: if_splits)

lemma remuw_reg0: "remuw vm i = Inr (vm', f) \<Longrightarrow> Reg vm' 0 = Reg vm 0"
  by (auto simp: remuw_def bind_err_Inr Let_def dest!: reg0_dest split: if_splits)

lemma rvcJAL_reg0: "rvcJAL vm i = Inr (vm', f) \<Longrightarrow> Reg vm' 0 = Reg vm 0"
  by (auto simp: rvcJAL_def bind_err_Inr Let_def dest!: reg0_dest split: if_splits)

lemma rvcJALR_reg0: "rvcJALR vm i = Inr (vm', f) \<Longrightarrow> Reg vm' 0 = Reg vm 0"
  by (auto simp: rvcJALR_def bind_err_Inr Let_def dest!: reg0_dest split: if_splits)

lemma beq_reg0: "beq vm i = Inr (vm', f) \<Longrightarrow> Reg vm' 0 = Reg vm 0"
  unfolding beq_def by (rule branch_reg0)

lemma bne_reg0: "bne vm i = Inr (vm', f) \<Longrightarrow> Reg vm' 0 = Reg vm 0"
  unfolding bne_def by (rule branch_reg0)

lemma blt_reg0: "blt vm i = Inr (vm', f) \<Longrightarrow> Reg vm' 0 = Reg vm 0"
  unfolding blt_def by (rule branch_reg0)

lemma bge_reg0: "bge vm i = Inr (vm', f) \<Longrightarrow> Reg vm' 0 = Reg vm 0"
  unfolding bge_def by (rule branch_reg0)

lemma bltu_reg0: "bltu vm i = Inr (vm', f) \<Longrightarrow> Reg vm' 0 = Reg vm 0"
  unfolding bltu_def by (rule branch_reg0)

lemma bgeu_reg0: "bgeu vm i = Inr (vm', f) \<Longrightarrow> Reg vm' 0 = Reg vm 0"
  unfolding bgeu_def by (rule branch_reg0)

lemma ecall_reg0: "ecall hw vm i = Inr (vm', f) \<Longrightarrow> Reg vm' 0 = Reg vm 0"
  by (auto simp: ecall_def bind_err_Inr Let_def dest!: reg0_dest split: if_splits)

lemma ecallOrBreak_reg0: "ecallOrBreak hw vm i = Inr (vm', f) \<Longrightarrow> Reg vm' 0 = Reg vm 0"
  by (auto simp: ecallOrBreak_def dest: ecall_reg0 ebreak_reg0 split: if_splits)

lemma shiftRight_reg0: "shiftRight vm i = Inr (vm', f) \<Longrightarrow> Reg vm' 0 = Reg vm 0"
  by (auto simp: shiftRight_def dest: srli_reg0 srai_reg0 split: if_splits)

lemmas handler_reg0 = lui_reg0 auipc_reg0 jal_reg0 jalr_reg0 lb_reg0 lh_reg0 lw_reg0 lbu_reg0 lhu_reg0 sb_reg0 sh_reg0 sw_reg0 addi_reg0 slti_reg0 sltiu_reg0 xori_reg0 ori_reg0 andi_reg0 add_reg0 sub_reg0 sll_reg0 slt_reg0 sltu_reg0 xor_op_reg0 srl_reg0 sra_reg0 or_op_reg0 and_op_reg0 fence_reg0 fence_i_reg0 ebreak_reg0 csrrw_reg0 csrrs_reg0 csrrc_reg0 csrrwi_reg0 csrrsi_reg0 csrrci_reg0 lwu_reg0 ld_reg0 sd_reg0 slli_reg0 srli_reg0 srai_reg0 addiw_reg0 slliw_reg0 srliw_reg0 sraiw_reg0 addw_reg0 subw_reg0 sllw_reg0 srlw_reg0 sraw_reg0 mul_reg0 mulh_reg0 mulhsu_reg0 mulhu_reg0 mulw_reg0 div_op_reg0 divu_reg0 divw_reg0 divuw_reg0 rem_op_reg0 remu_reg0 remw_reg0 remuw_reg0 rvcJAL_reg0 rvcJALR_reg0 beq_reg0 bne_reg0 blt_reg0 bge_reg0 bltu_reg0 bgeu_reg0 ecall_reg0 ecallOrBreak_reg0 shiftRight_reg0

lemma exec_reg0: "exec hw vm i = Inr (vm', f) \<Longrightarrow> Reg vm' 0 = Reg vm 0"
  unfolding exec_def by (cases "fn i") (simp_all add: handler_reg0)

lemma step_reg0: "Reg (fst (step hw vm)) 0 = Reg vm 0"
  by (auto simp: step_def Let_def RDINSTRET_def split: sum.splits prod.splits dest!: exec_reg0)

lemma Run_loop_reg0: "Reg (fst (Run_loop hw n vm)) 0 = Reg vm 0"
proof (induction n arbitrary: vm)
  case 0
  show ?case by simp
next
  case (Suc n)
  show ?case
  proof (cases "step hw vm")
    case (Pair vm1 e)
    have s: "Reg vm1 0 = Reg vm 0" using step_reg0 [of hw vm] Pair by simp
    show ?thesis
    proof (cases e)
      case None
      with Pair s Suc.IH [of vm1] show ?thesis by simp
    next
      case (Some err)
      with Pair s show ?thesis by simp
    qed
  qed
qed

text \<open>
  C1. If register 0 holds 0, it still holds 0 after any handler that returns (whatever
  instruction it is given, decoded or not) and after any number of iterations of the
  step loop; \<open>store\<close> to register 0 returns the machine unchanged, and reading
  register 0 gives 0.
\<close>

theorem zero_register_invariant:
  assumes "Reg vm 0 = 0"
  shows "store vm 0 v = Inr vm
       \<and> (case exec hostWrite vm i of Inl e \<Rightarrow> True | Inr (vm', f) \<Rightarrow> getReg vm' 0 = Inr 0)
       \<and> getReg (fst (Run hostWrite n vm)) 0 = Inr 0"
proof -
  have a: "store vm 0 v = Inr vm" by (simp add: store_def)
  have b: "case exec hostWrite vm i of Inl e \<Rightarrow> True | Inr (vm', f) \<Rightarrow> getReg vm' 0 = Inr 0"
    using assms by (auto simp: getReg_def split: sum.splits dest!: exec_reg0)
  have c: "getReg (fst (Run hostWrite n vm)) 0 = Inr 0"
    using assms by (simp add: getReg_def Run_def Run_loop_reg0)
  from a b c show ?thesis by blast
qed

text \<open>The invariant at \<open>addi x0, x11, 5\<close> with \<open>x11 = 7\<close>: the instruction runs, and
  register 0 is still 0.\<close>

theorem zero_register_invariant_witness:
  "Reg (setReg 11 7 (machine 0 [0x13, 0x80, 0x55, 0x00])) 0 = 0
   \<and> observe 0 3 (step hostAll (setReg 11 7 (machine 0 [0x13, 0x80, 0x55, 0x00])))
       = (Some (F_addi, 5), None, 4, 0, 1)
   \<and> getReg (fst (Run hostAll 1 (setReg 11 7 (machine 0 [0x13, 0x80, 0x55, 0x00])))) 0 = Inr 0"
proof -
  have h: "Reg (setReg 11 7 (machine 0 [0x13, 0x80, 0x55, 0x00])) 0 = 0"
    by (simp add: machine_def setReg_def)
  have o: "observe 0 3 (step hostAll (setReg 11 7 (machine 0 [0x13, 0x80, 0x55, 0x00])))
       = (Some (F_addi, 5), None, 4, 0, 1)"
    by (simp add: ev addi_def)
  from h o zero_register_invariant [OF h, of 0 hostAll "mkInstr F_addi 0 11 0 5" 1]
  show ?thesis by blast
qed

subsection \<open>Jumps\<close>

text \<open>
  C2. The machine at address 0 holds \<open>jal x1, +0x80000\<close> (bytes EF 00 08 00). \<open>Decode\<close>
  gives the immediate \<open>0x80000\<close>, whose bit 20 is clear; the handler extends from bit
  19 and the program counter becomes \<open>0xFFFFFFFFFFF80000\<close>, where \<open>PC + sx(imm, 20)\<close> is
  \<open>0x80000\<close>.
\<close>

theorem jal_extends_from_bit_19:
  "observe 1 3 (step hostAll (machine 0 [0xEF, 0x00, 0x08, 0x00]))
     = (Some (F_jal, 0x80000), None, 0xFFFFFFFFFFF80000, 4, 1)
   \<and> (0 :: u64) + sx 0x80000 20 = 0x80000"
  by (simp add: ev jal_def sx_def)

text \<open>
  C3. The machine at address 0 holds \<open>jalr x1, -8(x5)\<close> (bytes E7 80 82 FF) and
  \<open>x5 = 0x120\<close>. \<open>Decode\<close> gives the 12-bit immediate \<open>0xFF8\<close>; the handler extends from
  bit 12, which a 12-bit immediate never has, and the program counter becomes \<open>0x1118\<close>,
  where \<open>(Reg[rs1] + sx(imm, 11)) & ~1\<close> is \<open>0x118\<close>.
\<close>

theorem jalr_extends_from_bit_12:
  "observe 1 3 (step hostAll (setReg 5 0x120 (machine 0 [0xE7, 0x80, 0x82, 0xFF])))
     = (Some (F_jalr, 0xFF8), None, 0x1118, 4, 1)
   \<and> (0x120 + sx 0xFF8 11) AND NOT 1 = (0x118 :: u64)"
  by (simp add: ev jalr_def sx_def)

subsection \<open>Right shifts by an immediate\<close>

text \<open>
  C4. \<open>srai x10, x11, 1\<close> (bytes 13 D5 15 40, immediate \<open>0x401\<close>) reaches \<open>shiftRight\<close>
  and panics: \<open>imm & 0xFC00\<close> is \<open>0x400\<close>, and the case label for SRAI is \<open>0x10\<close>. The
  immediate \<open>0x040\<close>, whose high six bits are \<open>0x01\<close>, is not rejected: it runs as SRLI
  by 0.
\<close>

theorem shiftRight_srai_panics:
  "observe 10 3 (step hostAll (setReg 11 0xFFFFFFFFFFFFFFF0 (machine 0 [0x13, 0xD5, 0x15, 0x40])))
     = (Some (F_shiftRight, 0x401), Some Panic, 0, 0, 0)
   \<and> observe 10 3 (step hostAll (setReg 11 0xFFFFFFFFFFFFFFF0 (machine 0 [0x13, 0xD5, 0x05, 0x04])))
     = (Some (F_shiftRight, 0x040), None, 4, 0xFFFFFFFFFFFFFFF0, 1)"
  by (simp add: ev shiftRight_def srli_def srai_def)

subsection \<open>The retired-instruction counter\<close>

text \<open>
  C5. \<open>csrrw x1, instret, x5\<close> (bytes F3 90 32 00) with \<open>x5 = 0x64\<close>: the handler writes
  \<open>0x64\<close> to RDINSTRET but, since \<open>rd\<close> is not 0, returns no flag, and the step loop adds
  1: the counter holds \<open>0x65\<close>.
\<close>

theorem csrrw_rdinstret_incremented:
  "observe 1 3 (step hostAll (setReg 5 0x64 (machine 0 [0xF3, 0x90, 0x32, 0x00])))
     = (Some (F_csrrw, 3), None, 4, 0, 0x65)"
  by (simp add: ev csrrw_def)

subsection \<open>Remainder by zero, 32-bit variants\<close>

text \<open>
  C6. \<open>remw x10, x11, x12\<close> (bytes 3B E5 C5 02) with \<open>x11 = 0x100000005\<close>: for \<open>x12 = 0\<close>
  the register itself is written, not the sign-extended 32-bit dividend 5; for
  \<open>x12 = 0x100000000\<close>, whose low 32 bits are 0, the 32-bit division panics.
  \<open>remuw\<close> (bytes 3B F5 C5 02) with \<open>x11 = 0x80000000\<close> and \<open>x12 = 0\<close> writes
  \<open>0x80000000\<close>, not \<open>0xFFFFFFFF80000000\<close>.
\<close>

theorem remw_zero_divisor:
  "observe 10 3 (step hostAll (setReg 11 0x100000005 (machine 0 [0x3B, 0xE5, 0xC5, 0x02])))
     = (Some (F_remw, 0), None, 4, 0x100000005, 1)
  \<and> observe 10 3 (step hostAll (setReg 12 0x100000000 (setReg 11 0x100000005
        (machine 0 [0x3B, 0xE5, 0xC5, 0x02]))))
     = (Some (F_remw, 0), Some Panic, 0, 0, 0)
  \<and> observe 10 3 (step hostAll (setReg 11 0x80000000 (machine 0 [0x3B, 0xF5, 0xC5, 0x02])))
     = (Some (F_remuw, 0), None, 4, 0x80000000, 1)
  \<and> int32_to_u64 (to32 0x100000005) = 5
  \<and> int32_to_u64 (to32 0x80000000) = 0xFFFFFFFF80000000"
  by (simp add: ev remw_def remuw_def to32_def int32_to_u64_def)

subsection \<open>The high word of the signed product\<close>

text \<open>
  C7. \<open>mulh x10, x11, x12\<close> (bytes 33 95 C5 02) with \<open>x11 = -3\<close> and
  \<open>x12 = 0x7fffffffffffffff\<close> writes \<open>-1\<close>; the high 64 bits of the 128-bit signed
  product are \<open>-2\<close>.
\<close>

theorem mulh_negates_high_word_only:
  "observe 10 3 (step hostAll (setReg 12 0x7fffffffffffffff (setReg 11 0xFFFFFFFFFFFFFFFD
        (machine 0 [0x33, 0x95, 0xC5, 0x02]))))
     = (Some (F_mulh, 0), None, 4, 0xFFFFFFFFFFFFFFFF, 1)
  \<and> mulh_spec 0xFFFFFFFFFFFFFFFD 0x7fffffffffffffff = 0xFFFFFFFFFFFFFFFE"
  by (simp add: ev mulh_def mulh_val_def hiword_def mulh_spec_def word_sless_alt)

subsection \<open>Unsigned comparison with an immediate\<close>

text \<open>
  C8. \<open>sltiu x10, x11, -1\<close> (bytes 13 B5 F5 FF, immediate \<open>0xFFF\<close>) with \<open>x11 = 0x1000\<close>
  writes 0: the handler compares with \<open>0xFFF\<close> itself. Sign-extended from bit 11 the
  immediate is \<open>0xFFFFFFFFFFFFFFFF\<close>, and \<open>0x1000\<close> is below it.
\<close>

theorem sltiu_immediate_not_extended:
  "observe 10 3 (step hostAll (setReg 11 0x1000 (machine 0 [0x13, 0xB5, 0xF5, 0xFF])))
     = (Some (F_sltiu, 0xFFF), None, 4, 0, 1)
  \<and> (0x1000 :: u64) < sx 0xFFF 11"
  by (simp add: ev sltiu_def sx_def)

subsection \<open>Bytes and words\<close>

lemma le64_roundtrip:
  fixes v :: u64
  shows "(ucast (byte v) :: u64) OR push_bit 8 (ucast (byte (drop_bit 8 v))) OR push_bit 16 (ucast (byte (drop_bit 16 v)))
     OR push_bit 24 (ucast (byte (drop_bit 24 v))) OR push_bit 32 (ucast (byte (drop_bit 32 v)))
     OR push_bit 40 (ucast (byte (drop_bit 40 v))) OR push_bit 48 (ucast (byte (drop_bit 48 v)))
     OR push_bit 56 (ucast (byte (drop_bit 56 v))) = v"
proof (rule bit_word_eqI)
  fix n :: nat
  assume n: "n < LENGTH(64)"
  show "bit (ucast (byte v) OR push_bit 8 (ucast (byte (drop_bit 8 v))) OR push_bit 16 (ucast (byte (drop_bit 16 v)))
     OR push_bit 24 (ucast (byte (drop_bit 24 v))) OR push_bit 32 (ucast (byte (drop_bit 32 v)))
     OR push_bit 40 (ucast (byte (drop_bit 40 v))) OR push_bit 48 (ucast (byte (drop_bit 48 v)))
     OR push_bit 56 (ucast (byte (drop_bit 56 v))) :: u64) n = bit v n"
  proof (cases "bit v n")
    case True
    then show ?thesis using n
      apply (simp add: byte_def bit_simps less_diff_conv2 cong: conj_cong)
      apply linarith
      done
  next
    case False
    then show ?thesis
      by (simp add: byte_def bit_simps cong: conj_cong)
  qed
qed

subsection \<open>Writing a block of bytes\<close>

lemma setMem_Inr:
  "setMem vm a b = Inr vm' \<longleftrightarrow> unat a < length (Mem vm) \<and> vm' = vm\<lparr>Mem := (Mem vm)[unat a := b]\<rparr>"
  by (auto simp: setMem_def)

lemma writeBytes_append:
  "writeBytes vm a i (xs @ ys) =
     bind_err (writeBytes vm a i xs) (\<lambda>vm. writeBytes vm a (i + length xs) ys)"
proof (induction xs arbitrary: vm i)
  case Nil
  show ?case by (simp add: bind_err_def)
next
  case (Cons x xs)
  show ?case
    by (cases "setMem vm (a + of_nat i) x") (simp_all add: bind_err_def Cons.IH)
qed

lemma writeBytes_length:
  "writeBytes vm a i bs = Inr vm' \<Longrightarrow> length (Mem vm') = length (Mem vm)"
proof (induction bs arbitrary: vm i)
  case Nil
  then show ?case by simp
next
  case (Cons b bs)
  then show ?case by (auto simp: bind_err_Inr setMem_Inr)
qed

lemma writeBytes_bounds:
  "writeBytes vm a i bs = Inr vm' \<Longrightarrow> j < length bs
     \<Longrightarrow> unat (a + of_nat (i + j)) < length (Mem vm)"
proof (induction bs arbitrary: vm i j)
  case Nil
  then show ?case by simp
next
  case (Cons b bs)
  from Cons.prems(1) obtain vm1 where
    s: "setMem vm (a + of_nat i) b = Inr vm1" and w: "writeBytes vm1 a (Suc i) bs = Inr vm'"
    by (auto simp: bind_err_Inr)
  from s have l: "length (Mem vm1) = length (Mem vm)" and r: "unat (a + of_nat i) < length (Mem vm)"
    by (auto simp: setMem_Inr)
  show ?case
  proof (cases j)
    case 0
    with r show ?thesis by simp
  next
    case (Suc j')
    with Cons.prems(2) have "j' < length bs" by simp
    from Cons.IH [OF w this] l Suc show ?thesis by simp
  qed
qed

lemma unat_plus_of_nat:
  "unat (a :: u64) + i < 2 ^ 64 \<Longrightarrow> unat (a + of_nat i) = unat a + i"
  by (simp add: unat_word_ariths unat_of_nat take_bit_nat_eq_self)

lemma writeBytes_exact:
  "unat a + i + length bs \<le> length (Mem vm) \<Longrightarrow> length (Mem vm) < 2 ^ 64 \<Longrightarrow>
   writeBytes vm a i bs =
     Inr (vm\<lparr>Mem := take (unat a + i) (Mem vm) @ bs @ drop (unat a + i + length bs) (Mem vm)\<rparr>)"
proof (induction bs arbitrary: vm i)
  case Nil
  then show ?case by simp
next
  case (Cons b bs)
  let ?p = "unat a + i"
  have p: "unat (a + of_nat i) = ?p" using Cons.prems by (intro unat_plus_of_nat) simp
  have pl: "?p < length (Mem vm)" using Cons.prems by simp
  let ?vm1 = "vm\<lparr>Mem := (Mem vm)[?p := b]\<rparr>"
  have s: "setMem vm (a + of_nat i) b = Inr ?vm1" using p pl by (simp add: setMem_Inr)
  have ih: "writeBytes ?vm1 a (Suc i) bs =
     Inr (?vm1\<lparr>Mem := take (unat a + Suc i) (Mem ?vm1) @ bs @ drop (unat a + Suc i + length bs) (Mem ?vm1)\<rparr>)"
    using Cons.prems by (intro Cons.IH) simp_all
  have t: "take (Suc ?p) ((Mem vm)[?p := b]) = take ?p (Mem vm) @ [b]"
    using pl by (simp add: take_Suc_conv_app_nth)
  have d: "drop (Suc (?p + length bs)) ((Mem vm)[?p := b]) = drop (Suc (?p + length bs)) (Mem vm)"
    by simp
  show ?case using s ih t d by (simp add: bind_err_def)
qed

lemma write64_writeBytes: "write64 vm a v = writeBytes vm a 0 (le64 v)"
  by (simp add: write64_def le64_def bind_err_def split: sum.splits)

lemma pushUint64_writeBytes:
  "pushUint64 vm v =
     writeBytes (vm\<lparr>Reg := (Reg vm)(2 := Reg vm 2 - of_nat (length (le64 v)))\<rparr>)
       (Reg vm 2 - of_nat (length (le64 v))) 0 (le64 v)"
  by (simp add: pushUint64_def write64_writeBytes SP_def Let_def) (simp add: le64_def)

lemma pushCString_writeBytes:
  "pushCString vm s =
     writeBytes (vm\<lparr>Reg := (Reg vm)(2 := Reg vm 2 - of_nat (length (s @ [0])))\<rparr>)
       (Reg vm 2 - of_nat (length (s @ [0]))) 0 (s @ [0])"
  by (simp add: pushCString_def writeBytes_append SP_def Let_def bind_err_def split: sum.splits)

lemma push_fits:
  assumes w: "writeBytes vm1 (sp - of_nat (length bs)) 0 bs = Inr vm'"
    and ne: "bs \<noteq> []"
    and L: "length (Mem vm1) < 2 ^ 64"
  shows "length bs \<le> unat (sp :: u64)"
proof (rule ccontr)
  assume "\<not> length bs \<le> unat sp"
  then have lt: "unat sp < length bs" by simp
  define j where "j = length bs - 1 - unat sp"
  have j: "j < length bs" and n: "length bs = unat sp + 1 + j"
    using lt by (simp_all add: j_def)
  have "sp - of_nat (length bs) + of_nat (0 + j) = of_nat (unat sp) - of_nat (unat sp + 1 + j) + of_nat j"
    using n by simp
  also have "\<dots> = (- 1 :: u64)" by simp
  finally have e: "sp - of_nat (length bs) + of_nat (0 + j) = (- 1 :: u64)" .
  from writeBytes_bounds [OF w j] e have "unat (- 1 :: u64) < length (Mem vm1)" by simp
  moreover have "unat (- 1 :: u64) = 2 ^ 64 - 1" by (simp add: unsigned_minus_1_eq_mask mask_eq_exp_minus_1)
  ultimately show False using L by simp
qed

lemma unat_sub_of_nat:
  assumes "n \<le> unat (sp :: u64)"
  shows "unat (sp - of_nat n) = unat sp - n"
proof -
  have lt: "unat sp < 2 ^ 64" using unsigned_less [of sp, where 'a = nat] by simp
  have u: "unat (of_nat n :: u64) = n"
    using assms lt by (simp add: unat_of_nat take_bit_nat_eq_self)
  have "(of_nat n :: u64) \<le> sp" using assms u by (simp add: word_le_nat_alt)
  then show ?thesis using u by (simp add: unat_sub)
qed

lemma push_Inr:
  assumes w: "writeBytes (vm\<lparr>Reg := (Reg vm)(2 := Reg vm 2 - of_nat (length bs))\<rparr>)
                (Reg vm 2 - of_nat (length bs)) 0 bs = Inr vm'"
    and ne: "bs \<noteq> []"
    and sp: "unat (Reg vm 2) \<le> length (Mem vm)"
    and L: "length (Mem vm) < 2 ^ 64"
  shows "length bs \<le> unat (Reg vm 2)"
    and "unat (Reg vm' 2) = unat (Reg vm 2) - length bs"
    and "Mem vm' = take (unat (Reg vm 2) - length bs) (Mem vm) @ bs @ drop (unat (Reg vm 2)) (Mem vm)"
    and "\<And>r. r \<noteq> 2 \<Longrightarrow> Reg vm' r = Reg vm r"
proof -
  let ?vm1 = "vm\<lparr>Reg := (Reg vm)(2 := Reg vm 2 - of_nat (length bs))\<rparr>"
  show fit: "length bs \<le> unat (Reg vm 2)"
    using push_fits [OF w ne] L by simp
  have u: "unat (Reg vm 2 - of_nat (length bs)) = unat (Reg vm 2) - length bs"
    using fit by (rule unat_sub_of_nat)
  have "writeBytes ?vm1 (Reg vm 2 - of_nat (length bs)) 0 bs =
     Inr (?vm1\<lparr>Mem := take (unat (Reg vm 2 - of_nat (length bs)) + 0) (Mem ?vm1) @ bs
            @ drop (unat (Reg vm 2 - of_nat (length bs)) + 0 + length bs) (Mem ?vm1)\<rparr>)"
    using fit sp L u by (intro writeBytes_exact) simp_all
  with w have e: "vm' = ?vm1\<lparr>Mem := take (unat (Reg vm 2) - length bs) (Mem vm) @ bs
            @ drop (unat (Reg vm 2)) (Mem vm)\<rparr>"
    using u fit by simp
  show "unat (Reg vm' 2) = unat (Reg vm 2) - length bs" using e u by simp
  show "Mem vm' = take (unat (Reg vm 2) - length bs) (Mem vm) @ bs @ drop (unat (Reg vm 2)) (Mem vm)"
    using e by simp
  show "\<And>r. r \<noteq> 2 \<Longrightarrow> Reg vm' r = Reg vm r" using e by simp
qed

subsection \<open>The pushes of the stack initialiser\<close>

lemma pushCString_Inr:
  assumes "pushCString vm s = Inr vm'"
    and "unat (Reg vm 2) \<le> length (Mem vm)" and "length (Mem vm) < 2 ^ 64"
  shows "length s + 1 \<le> unat (Reg vm 2)"
    and "unat (Reg vm' 2) = unat (Reg vm 2) - (length s + 1)"
    and "Mem vm' = take (unat (Reg vm 2) - (length s + 1)) (Mem vm) @ (s @ [0]) @ drop (unat (Reg vm 2)) (Mem vm)"
proof -
  have w: "writeBytes (vm\<lparr>Reg := (Reg vm)(2 := Reg vm 2 - of_nat (length (s @ [0])))\<rparr>)
                (Reg vm 2 - of_nat (length (s @ [0]))) 0 (s @ [0]) = Inr vm'"
    using assms(1) by (simp only: pushCString_writeBytes)
  have ne: "s @ [0] \<noteq> []" by simp
  note p = push_Inr [OF w ne assms(2,3)]
  show "length s + 1 \<le> unat (Reg vm 2)" using p(1) by simp
  show "unat (Reg vm' 2) = unat (Reg vm 2) - (length s + 1)" using p(2) by simp
  show "Mem vm' = take (unat (Reg vm 2) - (length s + 1)) (Mem vm) @ (s @ [0]) @ drop (unat (Reg vm 2)) (Mem vm)"
    using p(3) by simp
qed

lemma length_le64: "length (le64 v) = 8"
  by (simp add: le64_def)

lemma pushUint64_Inr:
  assumes "pushUint64 vm v = Inr vm'"
    and "unat (Reg vm 2) \<le> length (Mem vm)" and "length (Mem vm) < 2 ^ 64"
  shows "8 \<le> unat (Reg vm 2)"
    and "unat (Reg vm' 2) = unat (Reg vm 2) - 8"
    and "Mem vm' = take (unat (Reg vm 2) - 8) (Mem vm) @ le64 v @ drop (unat (Reg vm 2)) (Mem vm)"
proof -
  have w: "writeBytes (vm\<lparr>Reg := (Reg vm)(2 := Reg vm 2 - of_nat (length (le64 v)))\<rparr>)
                (Reg vm 2 - of_nat (length (le64 v))) 0 (le64 v) = Inr vm'"
    using assms(1) by (simp only: pushUint64_writeBytes)
  have ne: "le64 v \<noteq> []" by (simp add: le64_def)
  note p = push_Inr [OF w ne assms(2,3)]
  show "8 \<le> unat (Reg vm 2)" using p(1) by (simp only: length_le64)
  show "unat (Reg vm' 2) = unat (Reg vm 2) - 8" using p(2) by (simp only: length_le64)
  show "Mem vm' = take (unat (Reg vm 2) - 8) (Mem vm) @ le64 v @ drop (unat (Reg vm 2)) (Mem vm)"
    using p(3) by (simp only: length_le64)
qed

text \<open>What one push leaves in memory, for any block of bytes.\<close>

lemma pushed_block:
  assumes M1: "M1 = take (sp - length bs) M @ bs @ drop sp M"
    and fit: "length bs \<le> sp" and sp: "sp \<le> length M"
  shows "length M1 = length M"
    and "take (length bs) (drop (sp - length bs) M1) = bs"
    and "\<And>x. sp \<le> x \<Longrightarrow> drop x M1 = drop x M"
proof -
  show "length M1 = length M" using M1 fit sp by simp
  show "take (length bs) (drop (sp - length bs) M1) = bs" using M1 fit sp by simp
  show "\<And>x. sp \<le> x \<Longrightarrow> drop x M1 = drop x M" using M1 fit sp by simp
qed

lemma pushStrings_Inr:
  "pushStrings vm ss addrs = Inr (vm', addrs') \<Longrightarrow>
   unat (Reg vm 2) \<le> length (Mem vm) \<Longrightarrow> length (Mem vm) < 2 ^ 64 \<Longrightarrow>
   unat (Reg vm' 2) + (\<Sum>s\<leftarrow>ss. length s + 1) = unat (Reg vm 2)
   \<and> length (Mem vm') = length (Mem vm)
   \<and> (\<forall>x\<ge>unat (Reg vm 2). drop x (Mem vm') = drop x (Mem vm))
   \<and> (\<exists>as. addrs' = addrs @ as \<and> length as = length ss
         \<and> (\<forall>j<length ss. unat (Reg vm' 2) \<le> unat (as ! j)
               \<and> cstring_at (Mem vm') (unat (as ! j)) (ss ! j)))"
proof (induction ss arbitrary: vm addrs)
  case Nil
  then show ?case by simp
next
  case (Cons s ss)
  from Cons.prems(1) obtain vm1 where
    p: "pushCString vm s = Inr vm1" and
    r: "pushStrings vm1 ss (addrs @ [Reg vm1 2]) = Inr (vm', addrs')"
    by (auto simp: bind_err_Inr SP_def)
  let ?sp = "unat (Reg vm 2)" and ?sp1 = "unat (Reg vm1 2)"
  note c = pushCString_Inr [OF p Cons.prems(2,3)]
  have fit: "length (s @ [0]) \<le> ?sp" using c(1) by simp
  have M1: "Mem vm1 = take (?sp - length (s @ [0])) (Mem vm) @ (s @ [0]) @ drop ?sp (Mem vm)"
    using c(3) by simp
  note b = pushed_block [OF M1 fit Cons.prems(2)]
  have sp1: "?sp1 + (length s + 1) = ?sp" using c(1,2) by simp
  have I1: "?sp1 \<le> length (Mem vm1)" "length (Mem vm1) < 2 ^ 64"
    using b(1) sp1 Cons.prems(2,3) by simp_all
  from Cons.IH [OF r I1] obtain as where
    sum: "unat (Reg vm' 2) + (\<Sum>s\<leftarrow>ss. length s + 1) = ?sp1" and
    len: "length (Mem vm') = length (Mem vm1)" and
    frame: "\<forall>x\<ge>?sp1. drop x (Mem vm') = drop x (Mem vm1)" and
    as: "addrs' = (addrs @ [Reg vm1 2]) @ as" "length as = length ss" and
    each: "\<forall>j<length ss. unat (Reg vm' 2) \<le> unat (as ! j)
               \<and> cstring_at (Mem vm') (unat (as ! j)) (ss ! j)"
    by blast
  have here: "cstring_at (Mem vm') ?sp1 s"
  proof -
    have "drop ?sp1 (Mem vm') = drop ?sp1 (Mem vm1)" using frame by simp
    moreover have "take (length s + 1) (drop ?sp1 (Mem vm1)) = s @ [0]"
      using b(2) c(2) by simp
    moreover have "?sp1 + length s < length (Mem vm')"
      using len b(1) sp1 Cons.prems(2) by simp
    ultimately show ?thesis by (simp add: cstring_at_def)
  qed
  have 1: "unat (Reg vm' 2) + (\<Sum>s\<leftarrow>s # ss. length s + 1) = ?sp" using sum sp1 by simp
  have 2: "length (Mem vm') = length (Mem vm)" using len b(1) by simp
  have 3: "\<forall>x\<ge>?sp. drop x (Mem vm') = drop x (Mem vm)"
  proof (intro allI impI)
    fix x assume x: "?sp \<le> x"
    then have "?sp1 \<le> x" using sp1 by simp
    then have "drop x (Mem vm') = drop x (Mem vm1)" using frame by simp
    also have "\<dots> = drop x (Mem vm)" using b(3) [OF x] .
    finally show "drop x (Mem vm') = drop x (Mem vm)" .
  qed
  have 4: "\<forall>j<length (s # ss). unat (Reg vm' 2) \<le> unat ((Reg vm1 2 # as) ! j)
               \<and> cstring_at (Mem vm') (unat ((Reg vm1 2 # as) ! j)) ((s # ss) ! j)"
  proof (intro allI impI)
    fix j assume j: "j < length (s # ss)"
    show "unat (Reg vm' 2) \<le> unat ((Reg vm1 2 # as) ! j)
               \<and> cstring_at (Mem vm') (unat ((Reg vm1 2 # as) ! j)) ((s # ss) ! j)"
    proof (cases j)
      case 0
      then show ?thesis using here sum by simp
    next
      case (Suc j')
      then show ?thesis using each j by simp
    qed
  qed
  have 5: "addrs' = addrs @ (Reg vm1 2 # as)" "length (Reg vm1 2 # as) = length (s # ss)"
    using as by simp_all
  from 1 2 3 4 5 show ?case by blast
qed

lemma pushAll_Inr:
  "pushAll vm as = Inr vm' \<Longrightarrow>
   unat (Reg vm 2) \<le> length (Mem vm) \<Longrightarrow> length (Mem vm) < 2 ^ 64 \<Longrightarrow>
   unat (Reg vm' 2) + 8 * length as = unat (Reg vm 2)
   \<and> length (Mem vm') = length (Mem vm)
   \<and> (\<forall>x\<ge>unat (Reg vm 2). drop x (Mem vm') = drop x (Mem vm))
   \<and> (\<forall>j<length as. word_at (Mem vm') (unat (Reg vm 2) - 8 * (j + 1)) (as ! j))"
proof (induction as arbitrary: vm)
  case Nil
  then show ?case by simp
next
  case (Cons a as)
  from Cons.prems(1) obtain vm1 where
    p: "pushUint64 vm a = Inr vm1" and r: "pushAll vm1 as = Inr vm'"
    by (auto simp: bind_err_Inr)
  let ?sp = "unat (Reg vm 2)" and ?sp1 = "unat (Reg vm1 2)"
  note c = pushUint64_Inr [OF p Cons.prems(2,3)]
  have l8: "length (le64 a) = 8" by (rule length_le64)
  have fit: "length (le64 a) \<le> ?sp" using c(1) l8 by simp
  have M1: "Mem vm1 = take (?sp - length (le64 a)) (Mem vm) @ le64 a @ drop ?sp (Mem vm)"
    using c(3) l8 by simp
  note b = pushed_block [OF M1 fit Cons.prems(2)]
  have sp1: "?sp1 + 8 = ?sp" using c(1,2) by simp
  have I1: "?sp1 \<le> length (Mem vm1)" "length (Mem vm1) < 2 ^ 64"
    using b(1) sp1 Cons.prems(2,3) by simp_all
  from Cons.IH [OF r I1] have
    sum: "unat (Reg vm' 2) + 8 * length as = ?sp1" and
    len: "length (Mem vm') = length (Mem vm1)" and
    frame: "\<forall>x\<ge>?sp1. drop x (Mem vm') = drop x (Mem vm1)" and
    each: "\<forall>j<length as. word_at (Mem vm') (?sp1 - 8 * (j + 1)) (as ! j)"
    by blast+
  have here: "word_at (Mem vm') ?sp1 a"
  proof -
    have "drop ?sp1 (Mem vm') = drop ?sp1 (Mem vm1)" using frame by simp
    moreover have "take 8 (drop ?sp1 (Mem vm1)) = le64 a"
      using b(2) c(2) l8 by simp
    moreover have "?sp1 + 8 \<le> length (Mem vm')"
      using len b(1) sp1 Cons.prems(2) by simp
    ultimately show ?thesis by (simp add: word_at_def)
  qed
  have 1: "unat (Reg vm' 2) + 8 * length (a # as) = ?sp" using sum sp1 by simp
  have 2: "length (Mem vm') = length (Mem vm)" using len b(1) by simp
  have 3: "\<forall>x\<ge>?sp. drop x (Mem vm') = drop x (Mem vm)"
  proof (intro allI impI)
    fix x assume x: "?sp \<le> x"
    then have "?sp1 \<le> x" using sp1 by simp
    then have "drop x (Mem vm') = drop x (Mem vm1)" using frame by simp
    also have "\<dots> = drop x (Mem vm)" using b(3) [OF x] .
    finally show "drop x (Mem vm') = drop x (Mem vm)" .
  qed
  have 4: "\<forall>j<length (a # as). word_at (Mem vm') (?sp - 8 * (j + 1)) ((a # as) ! j)"
  proof (intro allI impI)
    fix j assume j: "j < length (a # as)"
    show "word_at (Mem vm') (?sp - 8 * (j + 1)) ((a # as) ! j)"
    proof (cases j)
      case 0
      have "?sp - 8 * (0 + 1) = ?sp1" using sp1 by simp
      then show ?thesis using here 0 by simp
    next
      case (Suc j')
      have "?sp - 8 * (Suc j' + 1) = ?sp1 - 8 * (j' + 1)" using sp1 by simp
      then show ?thesis using each j Suc by simp
    qed
  qed
  from 1 2 3 4 show ?case by blast
qed

lemma unat_and_not_7: "unat ((x :: u64) AND NOT 7) = unat x - unat x mod 8"
proof -
  have m: "(7 :: u64) = mask 3" by (simp add: mask_eq_exp_minus_1)
  have "x AND NOT (mask 3) = push_bit 3 (drop_bit 3 x)"
    by (rule bit_word_eqI) (auto simp: bit_simps)
  then have e: "x AND NOT 7 = push_bit 3 (drop_bit 3 x)"
    unfolding m .
  have lt: "unat x < 2 ^ 64" using unsigned_less [of x, where 'a = nat] by simp
  have "unat (x AND NOT 7) = unat (push_bit 3 (drop_bit 3 x))" by (simp only: e)
  also have "\<dots> = take_bit LENGTH(64) (push_bit 3 (unat (drop_bit 3 x)))"
    by (rule unsigned_push_bit_eq)
  also have "\<dots> = take_bit 64 (8 * (unat x div 8))"
    by (simp add: unat_drop_bit_eq push_bit_eq_mult drop_bit_eq_div unat_div mult.commute)
  also have "\<dots> = 8 * (unat x div 8)"
    using lt by (intro take_bit_nat_eq_self) simp
  also have "\<dots> = unat x - unat x mod 8"
    by (simp add: minus_mod_eq_mult_div)
  finally show ?thesis .
qed

lemma sum_list_of_nat: "(\<Sum>e\<leftarrow>xs. (of_nat (f e) :: u64)) = of_nat (\<Sum>e\<leftarrow>xs. f e)"
  by (induction xs) simp_all

lemma stackExtra_of_nat: "stackExtra argv env = of_nat (extraBytes argv env)"
  unfolding stackExtra_def extraBytes_def sum_list_of_nat by simp

lemma Memory_word_at:
  assumes w: "word_at (Mem vm) (unat a) v" and L: "length (Mem vm) < 2 ^ 64"
  shows "Memory vm a = Inr v"
proof -
  from w have b: "unat a + 8 \<le> length (Mem vm)" and t: "take 8 (drop (unat a) (Mem vm)) = le64 v"
    by (simp_all add: word_at_def)
  have g: "getMem vm (a + of_nat k) = Inr (ucast (le64 v ! k))" if "k < 8" for k
  proof -
    have "unat (a + of_nat k) = unat a + k" using that b L by (intro unat_plus_of_nat) simp
    moreover have "le64 v ! k = Mem vm ! (unat a + k)"
      using that b by (simp flip: t)
    ultimately show ?thesis using that b by (simp add: getMem_def)
  qed
  from g [of 0] g [of 1] g [of 2] g [of 3] g [of 4] g [of 5] g [of 6] g [of 7]
  show ?thesis
    by (simp add: Memory_def read64_def bind_err_def le64_def le64_roundtrip)
qed

lemma cstring_at_cong:
  "length M' = length M \<Longrightarrow> drop a M' = drop a M \<Longrightarrow> cstring_at M' a s = cstring_at M a s"
  by (simp add: cstring_at_def)

lemma word_at_cong:
  "length M' = length M \<Longrightarrow> drop a M' = drop a M \<Longrightarrow> word_at M' a v = word_at M a v"
  by (simp add: word_at_def)

lemma pushAll_table:
  assumes "pushAll vm as = Inr vm'"
    and "unat (Reg vm 2) \<le> length (Mem vm)" and "length (Mem vm) < 2 ^ 64"
    and w: "w < length as"
  shows "word_at (Mem vm') (unat (Reg vm' 2) + 8 * w) (rev as ! w)"
proof -
  from pushAll_Inr [OF assms(1-3)] have
    sum: "unat (Reg vm' 2) + 8 * length as = unat (Reg vm 2)" and
    each: "\<forall>j<length as. word_at (Mem vm') (unat (Reg vm 2) - 8 * (j + 1)) (as ! j)"
    by blast+
  let ?q = "length as - Suc w"
  have q: "?q < length as" using w by simp
  have r: "rev as ! w = as ! ?q" using w by (simp add: rev_nth)
  have "8 * length as = 8 * (?q + 1) + 8 * w" using w by simp
  then have "unat (Reg vm 2) - 8 * (?q + 1) = unat (Reg vm' 2) + 8 * w" using sum by linarith
  then show ?thesis using each q r by (metis)
qed

lemma makeVM_Inr:
  "makeVM start n = Inr vm \<Longrightarrow>
     unat n < 2 ^ 63 \<and> Mem vm = replicate (unat n) 0 \<and> Reg vm = (\<lambda>_. 0)"
  by (auto simp: makeVM_def word_less_nat_alt split: if_splits)

lemma NewVM_layout:
  assumes nv: "NewVM p = Inr vm" and nn: "Argv p \<noteq> None \<or> Env p \<noteq> None"
  shows "\<exists>as es.
      list_all2 (\<lambda>a s. cstring_at (Mem vm) (unat a) s) as (strings (Argv p))
    \<and> list_all2 (\<lambda>a s. cstring_at (Mem vm) (unat a) s) es (strings (Env p))
    \<and> (\<forall>w<length (strings (Argv p)) + length (strings (Env p)) + 3.
          word_at (Mem vm) (unat (Reg vm 2) + 8 * w)
            ((of_nat (length (strings (Argv p))) # as @ [0] @ es @ [0]) ! w))
    \<and> length (Mem vm) = unat (MemSize p) + extraBytes (strings (Argv p)) (strings (Env p))
    \<and> length (Mem vm) < 2 ^ 63
    \<and> unat (Reg vm 2) = unat (MemSize p) - unat (MemSize p) mod 8"
proof -
  define argv where "argv = strings (Argv p)"
  define env where "env = strings (Env p)"
  define memSize where "memSize = MemSize p + stackExtra argv env"
  from nv nn obtain vm0 vmA vm1 addrs1 vm2 addrs2 vm3 where
    m0: "makeVM (Start p) (MemSize p) = Inr vm0" and
    mA: "makeVM (Start p) memSize = Inr vmA" and
    s1: "pushStrings (vmA\<lparr>Reg := (Reg vmA)(2 := memSize)\<rparr>) (rev env) [0] = Inr (vm1, addrs1)" and
    s2: "pushStrings vm1 (rev argv) (addrs1 @ [0]) = Inr (vm2, addrs2)" and
    pa: "pushAll (vm2\<lparr>Reg := (Reg vm2)(2 := Reg vm2 2 AND NOT 7)\<rparr>) addrs2 = Inr vm3" and
    pu: "pushUint64 vm3 (of_nat (length argv)) = Inr vm"
    by (auto simp: NewVM_def bind_err_Inr Let_def SP_def argv_def env_def memSize_def
             split: if_splits)
  let ?L = "unat memSize"
  let ?vmB = "vmA\<lparr>Reg := (Reg vmA)(2 := memSize)\<rparr>"
  let ?vmC = "vm2\<lparr>Reg := (Reg vm2)(2 := Reg vm2 2 AND NOT 7)\<rparr>"
  from makeVM_Inr [OF m0] have M0: "unat (MemSize p) < 2 ^ 63" by simp
  from makeVM_Inr [OF mA] have L63: "?L < 2 ^ 63" and MA: "Mem vmA = replicate ?L 0" by simp_all
  have L64: "?L < 2 ^ 64" using L63 by simp
  have IB: "unat (Reg ?vmB 2) \<le> length (Mem ?vmB)" "length (Mem ?vmB) < 2 ^ 64"
    using MA L64 by simp_all
  from pushStrings_Inr [OF s1 IB] obtain envas where
    sum1: "unat (Reg vm1 2) + (\<Sum>s\<leftarrow>rev env. length s + 1) = ?L" and
    len1: "length (Mem vm1) = ?L" and
    a1: "addrs1 = [0] @ envas" "length envas = length env" and
    each1: "\<forall>j<length (rev env). unat (Reg vm1 2) \<le> unat (envas ! j)
               \<and> cstring_at (Mem vm1) (unat (envas ! j)) (rev env ! j)"
    using MA by auto
  have I1: "unat (Reg vm1 2) \<le> length (Mem vm1)" "length (Mem vm1) < 2 ^ 64"
    using sum1 len1 L64 by simp_all
  from pushStrings_Inr [OF s2 I1] obtain argvas where
    sum2: "unat (Reg vm2 2) + (\<Sum>s\<leftarrow>rev argv. length s + 1) = unat (Reg vm1 2)" and
    len2: "length (Mem vm2) = ?L" and
    frame2: "\<forall>x\<ge>unat (Reg vm1 2). drop x (Mem vm2) = drop x (Mem vm1)" and
    a2: "addrs2 = (addrs1 @ [0]) @ argvas" "length argvas = length argv" and
    each2: "\<forall>j<length (rev argv). unat (Reg vm2 2) \<le> unat (argvas ! j)
               \<and> cstring_at (Mem vm2) (unat (argvas ! j)) (rev argv ! j)"
    using len1 by auto
  have spC: "unat (Reg ?vmC 2) = unat (Reg vm2 2) - unat (Reg vm2 2) mod 8"
    using unat_and_not_7 [of "Reg vm2 2"] by simp
  have IC: "unat (Reg ?vmC 2) \<le> length (Mem ?vmC)" "length (Mem ?vmC) < 2 ^ 64"
    using spC sum2 I1 len1 len2 L64 by simp_all
  from pushAll_Inr [OF pa IC] have
    sum3: "unat (Reg vm3 2) + 8 * length addrs2 = unat (Reg ?vmC 2)" and
    len3: "length (Mem vm3) = ?L" and
    frame3: "\<forall>x\<ge>unat (Reg ?vmC 2). drop x (Mem vm3) = drop x (Mem vm2)"
    using len2 by auto
  have I3: "unat (Reg vm3 2) \<le> length (Mem vm3)" "length (Mem vm3) < 2 ^ 64"
    using sum3 IC len2 len3 L64 by simp_all
  note pu' = pushUint64_Inr [OF pu I3]
  have l8: "length (le64 (of_nat (length argv) :: u64)) = 8" by (rule length_le64)
  have fit: "length (le64 (of_nat (length argv) :: u64)) \<le> unat (Reg vm3 2)"
    using pu'(1) l8 by simp
  have MF: "Mem vm = take (unat (Reg vm3 2) - length (le64 (of_nat (length argv) :: u64))) (Mem vm3)
      @ le64 (of_nat (length argv)) @ drop (unat (Reg vm3 2)) (Mem vm3)"
    using pu'(3) l8 by simp
  note blk = pushed_block [OF MF fit I3(1)]
  have lenF: "length (Mem vm) = ?L" using blk(1) len3 by simp
  have spF: "unat (Reg vm 2) + 8 = unat (Reg vm3 2)" using pu'(1,2) by simp
  have frameF: "\<And>x. unat (Reg vm3 2) \<le> x \<Longrightarrow> drop x (Mem vm) = drop x (Mem vm3)"
    using blk(3) .
  \<comment> \<open>the sizes\<close>
  have la: "length addrs2 = length env + length argv + 2" using a1 a2 by simp
  have sr: "(\<Sum>s\<leftarrow>rev env. length s + 1) = (\<Sum>s\<leftarrow>env. length s + 1)"
           "(\<Sum>s\<leftarrow>rev argv. length s + 1) = (\<Sum>s\<leftarrow>argv. length s + 1)"
    by (simp_all add: rev_map [symmetric])
  have chain: "unat (Reg vm 2) + 8 + 8 * (length env + length argv + 2) + unat (Reg vm2 2) mod 8
      + (\<Sum>s\<leftarrow>argv. length s + 1) + (\<Sum>s\<leftarrow>env. length s + 1) = ?L"
    using spF sum3 spC sum2 sum1 la sr by simp
  have EB: "extraBytes argv env \<le> ?L" using chain by (simp add: extraBytes_def)
  have "unat (MemSize p) + extraBytes argv env < 2 ^ 64" using EB L63 M0 by simp
  then have Leq: "?L = unat (MemSize p) + extraBytes argv env"
    unfolding memSize_def stackExtra_of_nat by (rule unat_plus_of_nat)
  have sp2: "unat (Reg vm2 2) = unat (MemSize p) + 8 * (length argv + length env + 3)"
    using sum1 sum2 sr Leq by (simp add: extraBytes_def)
  then have md: "unat (Reg vm2 2) mod 8 = unat (MemSize p) mod 8" by presburger
  have spFinal: "unat (Reg vm 2) = unat (MemSize p) - unat (MemSize p) mod 8"
    using chain Leq md by (simp add: extraBytes_def)
  \<comment> \<open>the pointer table\<close>
  define as where "as = rev argvas"
  define es where "es = rev envas"
  have tbl: "rev addrs2 = as @ [0] @ es @ [0]" using a1 a2 by (simp add: as_def es_def)
  have words: "word_at (Mem vm) (unat (Reg vm 2) + 8 * w)
            ((of_nat (length argv) # as @ [0] @ es @ [0]) ! w)"
    if w: "w < length argv + length env + 3" for w
  proof (cases w)
    case 0
    have "unat (Reg vm3 2) - 8 = unat (Reg vm 2)" using spF by simp
    then have "take 8 (drop (unat (Reg vm 2)) (Mem vm)) = le64 (of_nat (length argv))"
      using blk(2) l8 by simp
    moreover have "unat (Reg vm 2) + 8 \<le> length (Mem vm)" using spF I3(1) lenF len3 by simp
    ultimately show ?thesis using 0 by (simp add: word_at_def)
  next
    case (Suc w')
    then have w': "w' < length addrs2" using w la by simp
    let ?x = "unat (Reg vm3 2) + 8 * w'"
    have x: "unat (Reg vm 2) + 8 * w = ?x" using spF Suc by simp
    have t: "(of_nat (length argv) # as @ [0] @ es @ [0]) ! w = rev addrs2 ! w'"
      using Suc tbl by simp
    have "word_at (Mem vm3) ?x (rev addrs2 ! w')"
      using pa IC w' by (rule pushAll_table)
    moreover have "drop ?x (Mem vm) = drop ?x (Mem vm3)"
      by (rule frameF) simp
    moreover have "length (Mem vm) = length (Mem vm3)" using lenF len3 by simp
    ultimately have "word_at (Mem vm) ?x (rev addrs2 ! w')"
      using word_at_cong [of "Mem vm" "Mem vm3" ?x] by blast
    then show ?thesis unfolding x t .
  qed
  \<comment> \<open>the strings\<close>
  have sp32: "unat (Reg vm3 2) \<le> unat (Reg ?vmC 2)" "unat (Reg ?vmC 2) \<le> unat (Reg vm2 2)"
       "unat (Reg vm2 2) \<le> unat (Reg vm1 2)"
    using sum3 spC sum2 by simp_all
  have keep2: "cstring_at (Mem vm) a s = cstring_at (Mem vm2) a s" if "unat (Reg vm2 2) \<le> a" for a s
  proof -
    have "drop a (Mem vm) = drop a (Mem vm3)" using that sp32 by (intro frameF) simp
    moreover have "drop a (Mem vm3) = drop a (Mem vm2)" using that sp32 frame3 by simp
    ultimately show ?thesis using lenF len2 by (intro cstring_at_cong) simp_all
  qed
  have keep1: "cstring_at (Mem vm) a s = cstring_at (Mem vm1) a s" if "unat (Reg vm1 2) \<le> a" for a s
  proof -
    have "cstring_at (Mem vm) a s = cstring_at (Mem vm2) a s" using that sp32 by (intro keep2) simp
    moreover have "drop a (Mem vm2) = drop a (Mem vm1)" using that frame2 by simp
    ultimately show ?thesis using len1 len2 by (simp add: cstring_at_cong [of "Mem vm2" "Mem vm1"])
  qed
  have "list_all2 (\<lambda>a s. cstring_at (Mem vm) (unat a) s) argvas (rev argv)"
    using each2 a2(2) keep2 by (simp add: list_all2_conv_all_nth)
  then have A: "list_all2 (\<lambda>a s. cstring_at (Mem vm) (unat a) s) as argv"
    unfolding as_def by (simp add: list_all2_rev1)
  have "list_all2 (\<lambda>a s. cstring_at (Mem vm) (unat a) s) envas (rev env)"
    using each1 a1(2) keep1 by (simp add: list_all2_conv_all_nth)
  then have E: "list_all2 (\<lambda>a s. cstring_at (Mem vm) (unat a) s) es env"
    unfolding es_def by (simp add: list_all2_rev1)
  have W: "\<forall>w<length argv + length env + 3.
          word_at (Mem vm) (unat (Reg vm 2) + 8 * w)
            ((of_nat (length argv) # as @ [0] @ es @ [0]) ! w)"
    using words by blast
  have Lf: "length (Mem vm) = unat (MemSize p) + extraBytes argv env" using Leq lenF by simp
  have L3: "length (Mem vm) < 2 ^ 63" using lenF L63 by simp
  from A E W Lf L3 spFinal show ?thesis
    unfolding argv_def env_def by (intro exI [of _ as] exI [of _ es] conjI)
qed

subsection \<open>The stack initialiser returns\<close>

lemma push_ok:
  assumes fit: "length bs \<le> unat (Reg vm 2)"
    and sp: "unat (Reg vm 2) \<le> length (Mem vm)" and L: "length (Mem vm) < 2 ^ 64"
  shows "\<exists>vm'. writeBytes (vm\<lparr>Reg := (Reg vm)(2 := Reg vm 2 - of_nat (length bs))\<rparr>)
                (Reg vm 2 - of_nat (length bs)) 0 bs = Inr vm'"
proof -
  let ?vm1 = "vm\<lparr>Reg := (Reg vm)(2 := Reg vm 2 - of_nat (length bs))\<rparr>"
  have u: "unat (Reg vm 2 - of_nat (length bs)) = unat (Reg vm 2) - length bs"
    using fit by (rule unat_sub_of_nat)
  have "writeBytes ?vm1 (Reg vm 2 - of_nat (length bs)) 0 bs =
     Inr (?vm1\<lparr>Mem := take (unat (Reg vm 2 - of_nat (length bs)) + 0) (Mem ?vm1) @ bs
            @ drop (unat (Reg vm 2 - of_nat (length bs)) + 0 + length bs) (Mem ?vm1)\<rparr>)"
    using fit sp L u by (intro writeBytes_exact) simp_all
  then show ?thesis by blast
qed

lemma pushCString_ok:
  assumes "length s + 1 \<le> unat (Reg vm 2)"
    and "unat (Reg vm 2) \<le> length (Mem vm)" and "length (Mem vm) < 2 ^ 64"
  shows "\<exists>vm'. pushCString vm s = Inr vm'"
proof -
  have "length (s @ [0]) \<le> unat (Reg vm 2)" using assms(1) by simp
  from push_ok [OF this assms(2,3)] show ?thesis by (simp only: pushCString_writeBytes)
qed

lemma pushUint64_ok:
  assumes "8 \<le> unat (Reg vm 2)"
    and "unat (Reg vm 2) \<le> length (Mem vm)" and "length (Mem vm) < 2 ^ 64"
  shows "\<exists>vm'. pushUint64 vm v = Inr vm'"
proof -
  have "length (le64 v) \<le> unat (Reg vm 2)" using assms(1) by (simp only: length_le64)
  from push_ok [OF this assms(2,3)] show ?thesis by (simp only: pushUint64_writeBytes)
qed

lemma pushStrings_ok:
  "(\<Sum>s\<leftarrow>ss. length s + 1) \<le> unat (Reg vm 2) \<Longrightarrow>
   unat (Reg vm 2) \<le> length (Mem vm) \<Longrightarrow> length (Mem vm) < 2 ^ 64 \<Longrightarrow>
   \<exists>r. pushStrings vm ss addrs = Inr r"
proof (induction ss arbitrary: vm addrs)
  case Nil
  show ?case by simp
next
  case (Cons s ss)
  have "length s + 1 \<le> unat (Reg vm 2)" using Cons.prems(1) by simp
  from pushCString_ok [OF this Cons.prems(2,3)] obtain vm1 where p: "pushCString vm s = Inr vm1"
    by blast
  note c = pushCString_Inr [OF p Cons.prems(2,3)]
  have M1: "Mem vm1 = take (unat (Reg vm 2) - length (s @ [0])) (Mem vm) @ (s @ [0])
      @ drop (unat (Reg vm 2)) (Mem vm)"
    using c(3) by simp
  have fit: "length (s @ [0]) \<le> unat (Reg vm 2)" using c(1) by simp
  note b = pushed_block [OF M1 fit Cons.prems(2)]
  have "(\<Sum>s\<leftarrow>ss. length s + 1) \<le> unat (Reg vm1 2)" using c(2) Cons.prems(1) by simp
  moreover have "unat (Reg vm1 2) \<le> length (Mem vm1)" using c(2) b(1) Cons.prems(2) by simp
  moreover have "length (Mem vm1) < 2 ^ 64" using b(1) Cons.prems(3) by simp
  ultimately obtain r where "pushStrings vm1 ss (addrs @ [Reg vm1 2]) = Inr r"
    using Cons.IH by blast
  then show ?case using p by (simp add: bind_err_def SP_def)
qed

lemma pushAll_ok:
  "8 * length as \<le> unat (Reg vm 2) \<Longrightarrow>
   unat (Reg vm 2) \<le> length (Mem vm) \<Longrightarrow> length (Mem vm) < 2 ^ 64 \<Longrightarrow>
   \<exists>vm'. pushAll vm as = Inr vm'"
proof (induction as arbitrary: vm)
  case Nil
  show ?case by simp
next
  case (Cons a as)
  have "8 \<le> unat (Reg vm 2)" using Cons.prems(1) by simp
  from pushUint64_ok [OF this Cons.prems(2,3)] obtain vm1 where p: "pushUint64 vm a = Inr vm1"
    by blast
  note c = pushUint64_Inr [OF p Cons.prems(2,3)]
  have M1: "Mem vm1 = take (unat (Reg vm 2) - length (le64 a)) (Mem vm) @ le64 a
      @ drop (unat (Reg vm 2)) (Mem vm)"
    using c(3) by (simp only: length_le64)
  have fit: "length (le64 a) \<le> unat (Reg vm 2)" using c(1) by (simp only: length_le64)
  note b = pushed_block [OF M1 fit Cons.prems(2)]
  have "8 * length as \<le> unat (Reg vm1 2)" using c(2) Cons.prems(1) by simp
  moreover have "unat (Reg vm1 2) \<le> length (Mem vm1)" using c(2) b(1) Cons.prems(2) by simp
  moreover have "length (Mem vm1) < 2 ^ 64" using b(1) Cons.prems(3) by simp
  ultimately obtain vm' where "pushAll vm1 as = Inr vm'"
    using Cons.IH by blast
  then show ?case using p by (simp add: bind_err_def)
qed

text \<open>Enough room: \<open>NewVM\<close> returns a machine whenever the enlarged size fits an \<open>int\<close>.\<close>

lemma NewVM_returns:
  assumes room: "unat (MemSize p) + extraBytes (strings (Argv p)) (strings (Env p)) < 2 ^ 63"
  shows "\<exists>vm. NewVM p = Inr vm"
proof (cases "Argv p = None \<and> Env p = None")
  case True
  then show ?thesis using room by (simp add: NewVM_def makeVM_def bind_err_def word_less_nat_alt)
next
  case False
  define argv where "argv = strings (Argv p)"
  define env where "env = strings (Env p)"
  define memSize where "memSize = MemSize p + stackExtra argv env"
  let ?L = "unat memSize"
  have EB: "unat (MemSize p) + extraBytes argv env < 2 ^ 63"
    using room by (simp add: argv_def env_def)
  then have "unat (MemSize p) + extraBytes argv env < 2 ^ 64" by simp
  then have Leq: "?L = unat (MemSize p) + extraBytes argv env"
    unfolding memSize_def stackExtra_of_nat by (rule unat_plus_of_nat)
  have L64: "?L < 2 ^ 64" and L63: "?L < 2 ^ 63" using Leq EB by simp_all
  obtain vm0 where m0: "makeVM (Start p) (MemSize p) = Inr vm0"
    using EB by (simp add: makeVM_def word_less_nat_alt)
  obtain vmA where mA: "makeVM (Start p) memSize = Inr vmA"
    using L63 by (simp add: makeVM_def word_less_nat_alt)
  from makeVM_Inr [OF mA] have MA: "Mem vmA = replicate ?L 0" by simp
  let ?vmB = "vmA\<lparr>Reg := (Reg vmA)(2 := memSize)\<rparr>"
  have IB: "unat (Reg ?vmB 2) \<le> length (Mem ?vmB)" "length (Mem ?vmB) < 2 ^ 64"
    using MA L64 by simp_all
  have sr: "(\<Sum>s\<leftarrow>rev env. length s + 1) = (\<Sum>s\<leftarrow>env. length s + 1)"
           "(\<Sum>s\<leftarrow>rev argv. length s + 1) = (\<Sum>s\<leftarrow>argv. length s + 1)"
    by (simp_all add: rev_map [symmetric])
  have "(\<Sum>s\<leftarrow>rev env. length s + 1) \<le> unat (Reg ?vmB 2)"
    using Leq sr by (simp add: extraBytes_def)
  from pushStrings_ok [OF this IB] obtain vm1 addrs1 where
    s1: "pushStrings ?vmB (rev env) [0] = Inr (vm1, addrs1)" by (metis surj_pair)
  from pushStrings_Inr [OF s1 IB] obtain envas where
    sum1: "unat (Reg vm1 2) + (\<Sum>s\<leftarrow>rev env. length s + 1) = ?L" and
    len1: "length (Mem vm1) = ?L" and
    a1: "addrs1 = [0] @ envas" "length envas = length env"
    using MA by auto
  have I1: "unat (Reg vm1 2) \<le> length (Mem vm1)" "length (Mem vm1) < 2 ^ 64"
    using sum1 len1 L64 by simp_all
  have "(\<Sum>s\<leftarrow>rev argv. length s + 1) \<le> unat (Reg vm1 2)"
    using Leq sr sum1 by (simp add: extraBytes_def)
  from pushStrings_ok [OF this I1] obtain vm2 addrs2 where
    s2: "pushStrings vm1 (rev argv) (addrs1 @ [0]) = Inr (vm2, addrs2)" by (metis surj_pair)
  from pushStrings_Inr [OF s2 I1] obtain argvas where
    sum2: "unat (Reg vm2 2) + (\<Sum>s\<leftarrow>rev argv. length s + 1) = unat (Reg vm1 2)" and
    len2: "length (Mem vm2) = ?L" and
    a2: "addrs2 = (addrs1 @ [0]) @ argvas" "length argvas = length argv"
    using len1 by auto
  let ?vmC = "vm2\<lparr>Reg := (Reg vm2)(2 := Reg vm2 2 AND NOT 7)\<rparr>"
  have spC: "unat (Reg ?vmC 2) = unat (Reg vm2 2) - unat (Reg vm2 2) mod 8"
    using unat_and_not_7 [of "Reg vm2 2"] by simp
  have IC: "unat (Reg ?vmC 2) \<le> length (Mem ?vmC)" "length (Mem ?vmC) < 2 ^ 64"
    using spC sum2 I1 len1 len2 L64 by simp_all
  have la: "length addrs2 = length env + length argv + 2" using a1 a2 by simp
  have sp2: "unat (Reg vm2 2) = unat (MemSize p) + 8 * (length argv + length env + 3)"
    using sum1 sum2 sr Leq by (simp add: extraBytes_def)
  then have md: "unat (Reg vm2 2) mod 8 = unat (MemSize p) mod 8" by presburger
  have spC': "unat (Reg ?vmC 2) = unat (MemSize p) - unat (MemSize p) mod 8
      + 8 * (length argv + length env + 3)"
    using spC sp2 md by simp
  have "8 * length addrs2 \<le> unat (Reg ?vmC 2)" using spC' la by simp
  from pushAll_ok [OF this IC] obtain vm3 where pa: "pushAll ?vmC addrs2 = Inr vm3" by blast
  from pushAll_Inr [OF pa IC] have
    sum3: "unat (Reg vm3 2) + 8 * length addrs2 = unat (Reg ?vmC 2)" and
    len3: "length (Mem vm3) = ?L"
    using len2 by auto
  have I3: "unat (Reg vm3 2) \<le> length (Mem vm3)" "length (Mem vm3) < 2 ^ 64"
    using sum3 IC len2 len3 L64 by simp_all
  have "8 \<le> unat (Reg vm3 2)" using sum3 spC' la by simp
  from pushUint64_ok [OF this I3] obtain vm where
    pu: "pushUint64 vm3 (of_nat (length argv)) = Inr vm" by blast
  have "NewVM p = Inr vm"
    using False m0 mA s1 s2 pa pu
    by (auto simp: NewVM_def bind_err_def Let_def SP_def argv_def env_def memSize_def)
  then show ?thesis by blast
qed

subsection \<open>The initial stack\<close>

lemma prog0_returns: "NewVM prog0 = Inr (projr (NewVM prog0))"
proof -
  have "unat (MemSize prog0) + extraBytes (strings (Argv prog0)) (strings (Env prog0)) < 2 ^ 63"
    by (simp add: prog0_def strings_def extraBytes_def)
  from NewVM_returns [OF this] show ?thesis by auto
qed

text \<open>
  C9. When \<open>NewVM\<close> returns for a program whose \<open>Argv\<close> or \<open>Env\<close> is not nil: the stack
  pointer is a multiple of 8; the 64-bit little-endian words at \<open>Reg[SP]\<close>,
  \<open>Reg[SP] + 8\<close>, ... are \<open>argc\<close>, then the addresses \<open>as\<close> of the copies of
  \<open>Argv[0]\<close>, ..., \<open>Argv[argc-1]\<close>, a zero word, the addresses \<open>es\<close> of the copies of
  \<open>Env[0]\<close>, ..., and a zero word; and at each of these addresses the memory holds the
  bytes of the string followed by a NUL.
\<close>

theorem NewVM_initial_stack:
  assumes "NewVM p = Inr vm" and "Argv p \<noteq> None \<or> Env p \<noteq> None"
  shows "\<exists>as es.
      unat (Reg vm (unat SP)) mod 8 = 0
    \<and> map (\<lambda>w. Memory vm (Reg vm (unat SP) + 8 * of_nat w))
          [0..<length (strings (Argv p)) + length (strings (Env p)) + 3]
        = map Inr (of_nat (length (strings (Argv p))) # as @ [0] @ es @ [0])
    \<and> list_all2 (\<lambda>a s. cstring_at (Mem vm) (unat a) s) as (strings (Argv p))
    \<and> list_all2 (\<lambda>a s. cstring_at (Mem vm) (unat a) s) es (strings (Env p))"
proof -
  let ?m = "length (strings (Argv p))" and ?n = "length (strings (Env p))"
  from NewVM_layout [OF assms] obtain as es where
    A: "list_all2 (\<lambda>a s. cstring_at (Mem vm) (unat a) s) as (strings (Argv p))" and
    E: "list_all2 (\<lambda>a s. cstring_at (Mem vm) (unat a) s) es (strings (Env p))" and
    W: "\<forall>w<?m + ?n + 3. word_at (Mem vm) (unat (Reg vm 2) + 8 * w)
            ((of_nat ?m # as @ [0] @ es @ [0]) ! w)" and
    L: "length (Mem vm) < 2 ^ 63" and
    S: "unat (Reg vm 2) = unat (MemSize p) - unat (MemSize p) mod 8"
    by blast
  let ?T = "of_nat ?m # as @ [0] @ es @ [0] :: u64 list"
  have lT: "length ?T = ?m + ?n + 3"
    using list_all2_lengthD [OF A] list_all2_lengthD [OF E] by simp
  have al: "unat (Reg vm (unat SP)) mod 8 = 0"
    using S by (simp add: SP_def minus_mod_eq_mult_div)
  have rd: "Memory vm (Reg vm 2 + 8 * of_nat w) = Inr (?T ! w)" if w: "w < ?m + ?n + 3" for w
  proof -
    from W w have wa: "word_at (Mem vm) (unat (Reg vm 2) + 8 * w) (?T ! w)" by blast
    then have "unat (Reg vm 2) + 8 * w + 8 \<le> length (Mem vm)" by (simp add: word_at_def)
    then have "unat (Reg vm 2) + 8 * w < 2 ^ 64" using L by simp
    then have "unat (Reg vm 2 + of_nat (8 * w)) = unat (Reg vm 2) + 8 * w"
      by (rule unat_plus_of_nat)
    then have u: "unat (Reg vm 2 + 8 * of_nat w) = unat (Reg vm 2) + 8 * w" by simp
    have "length (Mem vm) < 2 ^ 64" using L by simp
    with wa show ?thesis unfolding u [symmetric] by (rule Memory_word_at)
  qed
  have mp: "map (\<lambda>w. Memory vm (Reg vm (unat SP) + 8 * of_nat w)) [0..<?m + ?n + 3] = map Inr ?T"
  proof (rule nth_equalityI)
    show "length (map (\<lambda>w. Memory vm (Reg vm (unat SP) + 8 * of_nat w)) [0..<?m + ?n + 3])
        = length (map Inr ?T)"
      using lT by simp
  next
    fix i
    assume "i < length (map (\<lambda>w. Memory vm (Reg vm (unat SP) + 8 * of_nat w)) [0..<?m + ?n + 3])"
    then have i: "i < ?m + ?n + 3" by simp
    then have "map (\<lambda>w. Memory vm (Reg vm (unat SP) + 8 * of_nat w)) [0..<?m + ?n + 3] ! i
        = Memory vm (Reg vm 2 + 8 * of_nat i)"
      by (simp add: SP_def del: upt_Suc)
    also have "\<dots> = Inr (?T ! i)" using i by (rule rd)
    also have "\<dots> = map Inr ?T ! i" using i lT by (intro nth_map [symmetric]) simp
    finally show "map (\<lambda>w. Memory vm (Reg vm (unat SP) + 8 * of_nat w)) [0..<?m + ?n + 3] ! i
        = map Inr ?T ! i" .
  qed
  from al mp A E show ?thesis by (intro exI [of _ as] exI [of _ es] conjI)
qed

text \<open>The layout for \<open>prog0\<close>, for which \<open>NewVM\<close> returns.\<close>

theorem NewVM_initial_stack_witness:
  "NewVM prog0 = Inr (projr (NewVM prog0))
   \<and> (\<exists>as es.
      unat (Reg (projr (NewVM prog0)) (unat SP)) mod 8 = 0
    \<and> map (\<lambda>w. Memory (projr (NewVM prog0)) (Reg (projr (NewVM prog0)) (unat SP) + 8 * of_nat w))
          [0..<length (strings (Argv prog0)) + length (strings (Env prog0)) + 3]
        = map Inr (of_nat (length (strings (Argv prog0))) # as @ [0] @ es @ [0])
    \<and> list_all2 (\<lambda>a s. cstring_at (Mem (projr (NewVM prog0))) (unat a) s) as (strings (Argv prog0))
    \<and> list_all2 (\<lambda>a s. cstring_at (Mem (projr (NewVM prog0))) (unat a) s) es (strings (Env prog0)))"
proof -
  have nn: "Argv prog0 \<noteq> None \<or> Env prog0 \<noteq> None" by (simp add: prog0_def)
  from NewVM_initial_stack [OF prog0_returns nn] prog0_returns show ?thesis by blast
qed

subsection \<open>The memory image\<close>

lemma cstrings_simps:
  "cstrings [] = []" "cstrings (s # ss) = s @ [0] @ cstrings ss"
  "cstrings (xs @ ys) = cstrings xs @ cstrings ys"
  by (simp_all add: cstrings_def)

lemma length_cstrings: "length (cstrings ss) = (\<Sum>s\<leftarrow>ss. length s + 1)"
  by (induction ss) (simp_all add: cstrings_simps)

lemma length_cstrings_rev: "length (cstrings (rev ss)) = length (cstrings ss)"
  by (simp add: length_cstrings rev_map [symmetric])

lemma pushedAddrs_append:
  "pushedAddrs T (xs @ ys) = pushedAddrs T xs @ pushedAddrs (T - length (cstrings xs)) ys"
proof (induction xs arbitrary: T)
  case Nil
  show ?case by (simp add: cstrings_simps)
next
  case (Cons s xs)
  have "T - (length s + 1) - length (cstrings xs) = T - length (cstrings (s # xs))"
    by (simp add: cstrings_simps)
  then show ?case using Cons.IH [of "T - (length s + 1)"] by simp
qed

lemma offsets_pushedAddrs:
  "length (cstrings ss) \<le> T \<Longrightarrow>
   rev (pushedAddrs T (rev ss)) = offsets (T - length (cstrings ss)) ss"
proof (induction ss)
  case Nil
  show ?case by simp
next
  case (Cons s ss)
  let ?C = "length (cstrings ss)" and ?n = "length s + 1"
  have tot: "?n + ?C \<le> T" using Cons.prems by (simp add: cstrings_simps)
  then have ih: "rev (pushedAddrs T (rev ss)) = offsets (T - ?C) ss" using Cons.IH by simp
  have "pushedAddrs T (rev (s # ss)) =
      pushedAddrs T (rev ss) @ pushedAddrs (T - length (cstrings (rev ss))) [s]"
    by (simp add: pushedAddrs_append)
  then have A: "rev (pushedAddrs T (rev (s # ss))) = (T - ?C - ?n) # offsets (T - ?C) ss"
    using ih by (simp add: length_cstrings_rev)
  have e: "T - length (cstrings (s # ss)) = T - ?C - ?n"
    by (simp add: cstrings_simps)
  have Bq: "offsets (T - ?C - ?n) (s # ss) = (T - ?C - ?n) # offsets (T - ?C - ?n + length s + 1) ss"
    by (simp only: offsets.simps)
  have Cq: "T - ?C - ?n + length s + 1 = T - ?C" using tot by simp
  show ?case unfolding A e Bq Cq ..
qed

lemma take_pushed: "k \<le> j \<Longrightarrow> j \<le> length M \<Longrightarrow> take k (take j M @ rest) = take k M"
  by simp

lemma drop_pushed: "j \<le> length M \<Longrightarrow> drop j (take j M @ rest) = rest"
  by simp

lemma pushStrings_exact:
  "pushStrings vm ss addrs = Inr (vm', addrs') \<Longrightarrow>
   unat (Reg vm 2) \<le> length (Mem vm) \<Longrightarrow> length (Mem vm) < 2 ^ 64 \<Longrightarrow>
   length (cstrings (rev ss)) \<le> unat (Reg vm 2)
   \<and> unat (Reg vm' 2) = unat (Reg vm 2) - length (cstrings (rev ss))
   \<and> Mem vm' = take (unat (Reg vm 2) - length (cstrings (rev ss))) (Mem vm)
                 @ cstrings (rev ss) @ drop (unat (Reg vm 2)) (Mem vm)
   \<and> addrs' = addrs @ map of_nat (pushedAddrs (unat (Reg vm 2)) ss)"
proof (induction ss arbitrary: vm addrs)
  case Nil
  then show ?case by (simp add: cstrings_simps)
next
  case (Cons s ss)
  from Cons.prems(1) obtain vm1 where
    p: "pushCString vm s = Inr vm1" and
    r: "pushStrings vm1 ss (addrs @ [Reg vm1 2]) = Inr (vm', addrs')"
    by (auto simp: bind_err_Inr SP_def)
  let ?sp = "unat (Reg vm 2)" and ?sp1 = "unat (Reg vm1 2)"
  let ?n = "length s + 1" and ?B = "length (cstrings (rev ss))"
  note c = pushCString_Inr [OF p Cons.prems(2,3)]
  have fit: "length (s @ [0]) \<le> ?sp" using c(1) by simp
  have M1: "Mem vm1 = take (?sp - length (s @ [0])) (Mem vm) @ (s @ [0]) @ drop ?sp (Mem vm)"
    using c(3) by simp
  note b = pushed_block [OF M1 fit Cons.prems(2)]
  have sp1: "?sp1 = ?sp - ?n" using c(2) .
  have I1: "?sp1 \<le> length (Mem vm1)" "length (Mem vm1) < 2 ^ 64"
    using b(1) sp1 Cons.prems(2,3) by simp_all
  from Cons.IH [OF r I1] have
    B: "?B \<le> ?sp1" and
    sp': "unat (Reg vm' 2) = ?sp1 - ?B" and
    M': "Mem vm' = take (?sp1 - ?B) (Mem vm1) @ cstrings (rev ss) @ drop ?sp1 (Mem vm1)" and
    a': "addrs' = (addrs @ [Reg vm1 2]) @ map of_nat (pushedAddrs ?sp1 ss)"
    by blast+
  have len: "length (cstrings (rev (s # ss))) = ?B + ?n" by (simp add: cstrings_simps)
  have M1': "Mem vm1 = take ?sp1 (Mem vm) @ ((s @ [0]) @ drop ?sp (Mem vm))"
    using c(3) sp1 by simp
  have j: "?sp1 \<le> length (Mem vm)" using sp1 Cons.prems(2) by simp
  have k: "?sp1 - ?B \<le> ?sp1" by simp
  have n1: "?sp1 - ?B = ?sp - (?B + ?n)" using sp1 by simp
  have "take (?sp1 - ?B) (Mem vm1) = take (?sp1 - ?B) (Mem vm)"
    unfolding M1' using k j by (rule take_pushed)
  then have t: "take (?sp1 - ?B) (Mem vm1) = take (?sp - (?B + ?n)) (Mem vm)"
    unfolding n1 .
  have d: "drop ?sp1 (Mem vm1) = (s @ [0]) @ drop ?sp (Mem vm)"
    unfolding M1' using j by (rule drop_pushed)
  have 1: "length (cstrings (rev (s # ss))) \<le> ?sp" using len B sp1 c(1) by simp
  have 2: "unat (Reg vm' 2) = ?sp - length (cstrings (rev (s # ss)))"
    using len sp' sp1 by simp
  have 3: "Mem vm' = take (?sp - length (cstrings (rev (s # ss)))) (Mem vm)
                 @ cstrings (rev (s # ss)) @ drop ?sp (Mem vm)"
    unfolding M' t d len by (simp add: cstrings_simps)
  have "Reg vm1 2 = of_nat ?sp1" by simp
  then have 4: "addrs' = addrs @ map of_nat (pushedAddrs ?sp (s # ss))"
    using a' sp1 by simp
  from 1 2 3 4 show ?case by blast
qed

lemma pushAll_exact:
  "pushAll vm as = Inr vm' \<Longrightarrow>
   unat (Reg vm 2) \<le> length (Mem vm) \<Longrightarrow> length (Mem vm) < 2 ^ 64 \<Longrightarrow>
   8 * length as \<le> unat (Reg vm 2)
   \<and> unat (Reg vm' 2) = unat (Reg vm 2) - 8 * length as
   \<and> Mem vm' = take (unat (Reg vm 2) - 8 * length as) (Mem vm)
                 @ concat (map le64 (rev as)) @ drop (unat (Reg vm 2)) (Mem vm)"
proof (induction as arbitrary: vm)
  case Nil
  then show ?case by simp
next
  case (Cons a as)
  from Cons.prems(1) obtain vm1 where
    p: "pushUint64 vm a = Inr vm1" and r: "pushAll vm1 as = Inr vm'"
    by (auto simp: bind_err_Inr)
  let ?sp = "unat (Reg vm 2)" and ?sp1 = "unat (Reg vm1 2)"
  let ?B = "8 * length as"
  note c = pushUint64_Inr [OF p Cons.prems(2,3)]
  have l8: "length (le64 a) = 8" by (rule length_le64)
  have fit: "length (le64 a) \<le> ?sp" using c(1) l8 by simp
  have M1: "Mem vm1 = take (?sp - length (le64 a)) (Mem vm) @ le64 a @ drop ?sp (Mem vm)"
    using c(3) l8 by simp
  note b = pushed_block [OF M1 fit Cons.prems(2)]
  have sp1: "?sp1 = ?sp - 8" using c(2) .
  have I1: "?sp1 \<le> length (Mem vm1)" "length (Mem vm1) < 2 ^ 64"
    using b(1) sp1 Cons.prems(2,3) by simp_all
  from Cons.IH [OF r I1] have
    B: "?B \<le> ?sp1" and
    sp': "unat (Reg vm' 2) = ?sp1 - ?B" and
    M': "Mem vm' = take (?sp1 - ?B) (Mem vm1) @ concat (map le64 (rev as)) @ drop ?sp1 (Mem vm1)"
    by blast+
  have M1': "Mem vm1 = take ?sp1 (Mem vm) @ (le64 a @ drop ?sp (Mem vm))"
    using c(3) sp1 by simp
  have j: "?sp1 \<le> length (Mem vm)" using sp1 Cons.prems(2) by simp
  have k: "?sp1 - ?B \<le> ?sp1" by simp
  have n1: "?sp1 - ?B = ?sp - (?B + 8)" using sp1 by simp
  have "take (?sp1 - ?B) (Mem vm1) = take (?sp1 - ?B) (Mem vm)"
    unfolding M1' using k j by (rule take_pushed)
  then have t: "take (?sp1 - ?B) (Mem vm1) = take (?sp - (?B + 8)) (Mem vm)"
    unfolding n1 .
  have d: "drop ?sp1 (Mem vm1) = le64 a @ drop ?sp (Mem vm)"
    unfolding M1' using j by (rule drop_pushed)
  have 1: "8 * length (a # as) \<le> ?sp" using B sp1 c(1) by simp
  have 2: "unat (Reg vm' 2) = ?sp - 8 * length (a # as)" using sp' sp1 by simp
  have e: "?sp - 8 * length (a # as) = ?sp - (?B + 8)" by simp
  have 3: "Mem vm' = take (?sp - 8 * length (a # as)) (Mem vm)
                 @ concat (map le64 (rev (a # as))) @ drop ?sp (Mem vm)"
    unfolding M' t d e by simp
  from 1 2 3 show ?case by blast
qed

lemma extraBytes_cstrings:
  "extraBytes argv env
     = length (cstrings argv) + length (cstrings env) + 8 * (length argv + length env + 3)"
  by (simp add: extraBytes_def length_cstrings)

lemma length_pushed:
  "j \<le> i \<Longrightarrow> i \<le> length M \<Longrightarrow> length ys = i - j
     \<Longrightarrow> length (take j M @ ys @ drop i M) = length M"
  by simp

lemma NewVM_image:
  assumes nv: "NewVM p = Inr vm" and nn: "Argv p \<noteq> None \<or> Env p \<noteq> None"
  shows "Mem vm = replicate (unat (MemSize p) - unat (MemSize p) mod 8) 0
            @ le64 (of_nat (length (strings (Argv p))))
            @ concat (map le64
                (map of_nat (offsets (unat (MemSize p)
                      + 8 * (length (strings (Argv p)) + length (strings (Env p)) + 3))
                    (strings (Argv p))) @ [0]
                 @ map of_nat (offsets (unat (MemSize p)
                      + 8 * (length (strings (Argv p)) + length (strings (Env p)) + 3)
                      + length (cstrings (strings (Argv p))))
                    (strings (Env p))) @ [0]))
            @ replicate (unat (MemSize p) mod 8) 0
            @ cstrings (strings (Argv p)) @ cstrings (strings (Env p))"
proof -
  define argv where "argv = strings (Argv p)"
  define env where "env = strings (Env p)"
  define memSize where "memSize = MemSize p + stackExtra argv env"
  define M0 where "M0 = unat (MemSize p)"
  define base where "base = M0 + 8 * (length argv + length env + 3)"
  let ?A = "length (cstrings argv)" and ?E = "length (cstrings env)"
  from nv nn obtain vm0 vmA vm1 addrs1 vm2 addrs2 vm3 where
    mA: "makeVM (Start p) memSize = Inr vmA" and
    s1: "pushStrings (vmA\<lparr>Reg := (Reg vmA)(2 := memSize)\<rparr>) (rev env) [0] = Inr (vm1, addrs1)" and
    s2: "pushStrings vm1 (rev argv) (addrs1 @ [0]) = Inr (vm2, addrs2)" and
    pa: "pushAll (vm2\<lparr>Reg := (Reg vm2)(2 := Reg vm2 2 AND NOT 7)\<rparr>) addrs2 = Inr vm3" and
    pu: "pushUint64 vm3 (of_nat (length argv)) = Inr vm"
    by (auto simp: NewVM_def bind_err_Inr Let_def SP_def argv_def env_def memSize_def
             split: if_splits)
  let ?L = "unat memSize"
  let ?vmB = "vmA\<lparr>Reg := (Reg vmA)(2 := memSize)\<rparr>"
  let ?vmC = "vm2\<lparr>Reg := (Reg vm2)(2 := Reg vm2 2 AND NOT 7)\<rparr>"
  from makeVM_Inr [OF mA] have L63: "?L < 2 ^ 63" and MA: "Mem vmA = replicate ?L 0" by simp_all
  have L64: "?L < 2 ^ 64" using L63 by simp
  from NewVM_layout [OF nv nn] have
    lenF: "length (Mem vm) = M0 + extraBytes argv env" and
    spF: "unat (Reg vm 2) = M0 - M0 mod 8"
    unfolding argv_def env_def M0_def by blast+
  have IB: "unat (Reg ?vmB 2) \<le> length (Mem ?vmB)" "length (Mem ?vmB) < 2 ^ 64"
    using MA L64 by simp_all
  from pushStrings_exact [OF s1 IB] have
    E: "?E \<le> ?L" and
    sp1: "unat (Reg vm1 2) = ?L - ?E" and
    M1: "Mem vm1 = replicate (?L - ?E) 0 @ cstrings env" and
    a1: "addrs1 = [0] @ map of_nat (pushedAddrs ?L (rev env))"
    using MA by (simp_all add: length_cstrings_rev)
  have len1: "length (Mem vm1) = ?L" using M1 E by simp
  have I1: "unat (Reg vm1 2) \<le> length (Mem vm1)" "length (Mem vm1) < 2 ^ 64"
    using sp1 len1 L64 by simp_all
  from pushStrings_exact [OF s2 I1] have
    A: "?A \<le> ?L - ?E" and
    sp2: "unat (Reg vm2 2) = ?L - ?E - ?A" and
    M2': "Mem vm2 = take (?L - ?E - ?A) (Mem vm1) @ cstrings argv @ drop (?L - ?E) (Mem vm1)" and
    a2: "addrs2 = (addrs1 @ [0]) @ map of_nat (pushedAddrs (?L - ?E) (rev argv))"
    using sp1 by (simp_all add: length_cstrings_rev)
  have M2: "Mem vm2 = replicate (?L - ?E - ?A) 0 @ cstrings argv @ cstrings env"
    unfolding M2' M1 by simp
  have len2: "length (Mem vm2) = ?L" using M2 A E by simp
  let ?sp2 = "?L - ?E - ?A"
  have spC: "unat (Reg ?vmC 2) = ?sp2 - ?sp2 mod 8"
    using unat_and_not_7 [of "Reg vm2 2"] sp2 by simp
  have IC: "unat (Reg ?vmC 2) \<le> length (Mem ?vmC)" "length (Mem ?vmC) < 2 ^ 64"
    using spC len2 L64 by simp_all
  let ?k = "length addrs2"
  let ?spC = "?sp2 - ?sp2 mod 8"
  from pushAll_exact [OF pa IC] have
    K: "8 * ?k \<le> ?spC" and
    sp3: "unat (Reg vm3 2) = ?spC - 8 * ?k" and
    M3': "Mem vm3 = take (?spC - 8 * ?k) (Mem vm2) @ concat (map le64 (rev addrs2))
             @ drop ?spC (Mem vm2)"
    using spC by simp_all
  let ?sp3 = "?spC - 8 * ?k"
  have t3: "take ?sp3 (Mem vm2) = replicate ?sp3 0"
    unfolding M2 by simp
  have d3: "drop ?spC (Mem vm2) = replicate (?sp2 mod 8) 0 @ cstrings argv @ cstrings env"
  proof -
    have "?sp2 mod 8 \<le> ?sp2" by simp
    then have "?sp2 - ?spC = ?sp2 mod 8" by simp
    then show ?thesis unfolding M2 by simp
  qed
  have M3: "Mem vm3 = replicate ?sp3 0 @ concat (map le64 (rev addrs2))
             @ replicate (?sp2 mod 8) 0 @ cstrings argv @ cstrings env"
    unfolding M3' t3 d3 ..
  have len3: "length (Mem vm3) = ?L"
  proof -
    have c: "length (concat (map le64 (rev addrs2))) = ?spC - ?sp3"
      using K by (simp add: length_concat comp_def length_le64 sum_list_triv)
    have j: "?sp3 \<le> ?spC" by simp
    have i: "?spC \<le> length (Mem vm2)" unfolding len2 by simp
    have "length (Mem vm3) = length (Mem vm2)"
      unfolding M3' by (rule length_pushed [OF j i c])
    also note len2
    finally show ?thesis .
  qed
  have I3: "unat (Reg vm3 2) \<le> length (Mem vm3)" "length (Mem vm3) < 2 ^ 64"
    using sp3 len3 L64 by simp_all
  note pu' = pushUint64_Inr [OF pu I3]
  have sp38: "8 \<le> ?sp3" using pu'(1) sp3 by simp
  have MF': "Mem vm = take (?sp3 - 8) (Mem vm3) @ le64 (of_nat (length argv)) @ drop ?sp3 (Mem vm3)"
    using pu'(3) sp3 by simp
  have tF: "take (?sp3 - 8) (Mem vm3) = replicate (?sp3 - 8) 0"
    unfolding M3 by simp
  have dF: "drop ?sp3 (Mem vm3) = concat (map le64 (rev addrs2))
             @ replicate (?sp2 mod 8) 0 @ cstrings argv @ cstrings env"
    unfolding M3 by simp
  have MF: "Mem vm = replicate (?sp3 - 8) 0 @ le64 (of_nat (length argv))
             @ concat (map le64 (rev addrs2))
             @ replicate (?sp2 mod 8) 0 @ cstrings argv @ cstrings env"
    unfolding MF' tF dF ..
  have "length (Mem vm) = ?L"
    using pu'(1,3) I3(1) len3 sp3 by (simp add: length_le64)
  then have Leq: "?L = M0 + extraBytes argv env" using lenF by simp
  have sp2b: "?sp2 = base"
    using Leq A E by (simp add: extraBytes_cstrings base_def)
  have md: "?sp2 mod 8 = M0 mod 8" unfolding sp2b base_def by presburger
  have "unat (Reg vm 2) = ?sp3 - 8" using pu'(2) sp3 by simp
  then have sF: "?sp3 - 8 = M0 - M0 mod 8" using spF by simp
  have sp1b: "?L - ?E = base + ?A" using sp2b A by simp
  have ra: "rev (pushedAddrs (?L - ?E) (rev argv)) = offsets base argv"
    using offsets_pushedAddrs [OF A] sp2b by simp
  have re: "rev (pushedAddrs ?L (rev env)) = offsets (base + ?A) env"
    using offsets_pushedAddrs [OF E] sp1b by simp
  have tbl: "rev addrs2 = map of_nat (offsets base argv) @ [0]
                @ map of_nat (offsets (base + ?A) env) @ [0]"
    unfolding a2 a1 by (simp add: rev_map ra re)
  have MF1: "Mem vm = replicate (M0 - M0 mod 8) 0 @ le64 (of_nat (length argv))
             @ concat (map le64 (rev addrs2))
             @ replicate (?sp2 mod 8) 0 @ cstrings argv @ cstrings env"
    using MF unfolding sF .
  have MF2: "Mem vm = replicate (M0 - M0 mod 8) 0 @ le64 (of_nat (length argv))
             @ concat (map le64 (map of_nat (offsets base argv) @ [0]
                @ map of_nat (offsets (base + ?A) env) @ [0]))
             @ replicate (M0 mod 8) 0 @ cstrings argv @ cstrings env"
    using MF1 unfolding md tbl .
  show ?thesis
    using MF2 unfolding base_def M0_def argv_def env_def .
qed

text \<open>
  C10, as stated, fails for \<open>prog0\<close>: 12 bytes are requested, the memory has 58, and the
  stack pointer \<open>NewVM\<close> returns is 8, which is 50 bytes below the enlarged size and
  not within 7 of it.
\<close>

theorem NewVM_sp_far_below_top:
  "NewVM prog0 = Inr (projr (NewVM prog0))
   \<and> unat (MemSize prog0) = 12
   \<and> length (Mem (projr (NewVM prog0))) = 58
   \<and> unat (Reg (projr (NewVM prog0)) (unat SP)) = 8
   \<and> \<not> length (Mem (projr (NewVM prog0))) - unat (Reg (projr (NewVM prog0)) (unat SP)) \<le> 7"
proof -
  have nn: "Argv prog0 \<noteq> None \<or> Env prog0 \<noteq> None" by (simp add: prog0_def)
  from NewVM_layout [OF prog0_returns nn] have
    "length (Mem (projr (NewVM prog0)))
       = unat (MemSize prog0) + extraBytes (strings (Argv prog0)) (strings (Env prog0))"
    "unat (Reg (projr (NewVM prog0)) 2) = unat (MemSize prog0) - unat (MemSize prog0) mod 8"
    by blast+
  moreover have "unat (MemSize prog0) = 12"
    "extraBytes (strings (Argv prog0)) (strings (Env prog0)) = 46"
    by (simp_all add: prog0_def strings_def extraBytes_def)
  ultimately show ?thesis using prog0_returns by (simp add: SP_def)
qed

text \<open>
  C10, amended. When \<open>NewVM\<close> returns for a program whose \<open>Argv\<close> or \<open>Env\<close> is not nil,
  the memory has \<open>MemSize\<close> plus the extra bytes (every string with its NUL, and
  \<open>8 * (len(Argv) + len(Env) + 3)\<close>), which is more than \<open>MemSize\<close> and less than \<open>2^63\<close>,
  and its contents are, from the enlarged top downward: the strings of \<open>Env\<close> and, below
  them, the strings of \<open>Argv\<close>, each followed by its NUL and in the order of the lists,
  the last NUL of \<open>Env\<close> being the last byte of the memory; \<open>MemSize mod 8\<close> zero bytes of
  alignment; the pointer table of \<open>len(Argv) + len(Env) + 3\<close> little-endian words, which
  are \<open>argc\<close>, the address of each \<open>Argv\<close> string, a zero word, the address of each \<open>Env\<close>
  string, and a zero word, the first \<open>Argv\<close> string being at address
  \<open>MemSize + 8 * (len(Argv) + len(Env) + 3)\<close>; and zero bytes from address 0 up to the
  table. The stack pointer returned is the address of \<open>argc\<close>, which is \<open>MemSize\<close> rounded
  down to a multiple of 8, so the stack occupies the extra bytes and up to 7 more below
  the enlarged top.
\<close>

theorem NewVM_memory_grows:
  assumes "NewVM p = Inr vm" and "Argv p \<noteq> None \<or> Env p \<noteq> None"
  shows "let argv = strings (Argv p); env = strings (Env p); memSize = unat (MemSize p);
             top = memSize + 8 * (length argv + length env + 3)
         in length (Mem vm) = memSize + extraBytes argv env
          \<and> memSize < length (Mem vm)
          \<and> length (Mem vm) < 2 ^ 63
          \<and> unat (Reg vm (unat SP)) = memSize - memSize mod 8
          \<and> unat (Reg vm (unat SP)) + memSize mod 8 + extraBytes argv env = length (Mem vm)
          \<and> Mem vm = replicate (memSize - memSize mod 8) 0
               @ concat (map le64 (of_nat (length argv)
                    # map of_nat (offsets top argv) @ [0]
                    @ map of_nat (offsets (top + length (cstrings argv)) env) @ [0]))
               @ replicate (memSize mod 8) 0
               @ cstrings argv @ cstrings env"
proof -
  from NewVM_layout [OF assms] have
    L: "length (Mem vm) = unat (MemSize p) + extraBytes (strings (Argv p)) (strings (Env p))" and
    B: "length (Mem vm) < 2 ^ 63" and
    S: "unat (Reg vm 2) = unat (MemSize p) - unat (MemSize p) mod 8"
    by blast+
  have pos: "0 < extraBytes (strings (Argv p)) (strings (Env p))" by (simp add: extraBytes_def)
  have le: "unat (MemSize p) mod 8 \<le> unat (MemSize p)" by simp
  have G: "unat (MemSize p) < length (Mem vm)" using L pos by simp
  have T: "unat (Reg vm 2) + unat (MemSize p) mod 8
             + extraBytes (strings (Argv p)) (strings (Env p)) = length (Mem vm)"
    using L S le by simp
  note I = NewVM_image [OF assms]
  from L G B S T I show ?thesis unfolding Let_def SP_def by simp
qed

text \<open>The memory image for \<open>prog0\<close>: 8 zero bytes, the five words of the table, 4 bytes
  of alignment, and \<open>"a"\<close> and \<open>"X=1"\<close> with their NULs at addresses 52 and 54.\<close>

theorem NewVM_memory_grows_witness:
  "NewVM prog0 = Inr (projr (NewVM prog0))
   \<and> unat (MemSize prog0) = 12
   \<and> length (Mem (projr (NewVM prog0))) = 58
   \<and> unat (Reg (projr (NewVM prog0)) (unat SP)) = 8
   \<and> Mem (projr (NewVM prog0))
       = replicate 8 0 @ concat (map le64 [1, 52, 0, 54, 0]) @ replicate 4 0
           @ [0x61, 0, 0x58, 0x3D, 0x31, 0]"
proof -
  have nn: "Argv prog0 \<noteq> None \<or> Env prog0 \<noteq> None" by (simp add: prog0_def)
  have v: "unat (MemSize prog0) = 12" "strings (Argv prog0) = [[0x61]]"
    "strings (Env prog0) = [[0x58, 0x3D, 0x31]]"
    by (simp_all add: prog0_def strings_def)
  from NewVM_memory_grows [OF prog0_returns nn] prog0_returns show ?thesis
    unfolding Let_def v by (simp add: extraBytes_def cstrings_def length_le64)
qed

end

